theory Spec2Isabelle
  imports Main "HOL-Library.AList" "HOL-Library.Sublist"
begin

section \<open>Python values, dictionaries and exceptions\<close>

text \<open>
  The operators of \<^verbatim>\<open>docetl/operations/map.py\<close> work on JSON-like Python values.
  A dictionary is an association list in insertion order; a well-formed dictionary has
  distinct keys (\<open>wf_dict\<close>). Record keys are strings.
\<close>

datatype pyval =
    VNone
  | VBool bool
  | VInt int
  | VStr string
  | VList "pyval list"
  | VDict "(string \<times> pyval) list"

type_synonym pydict = "(string \<times> pyval) list"

definition wf_dict :: "pydict \<Rightarrow> bool" where
  "wf_dict d = distinct (map fst d)"

text \<open>
  Exceptions are values. The string of an exception is the source's message, without
  its quotation marks and with the placeholders of a format string left as written.
\<close>

datatype error =
    ValueError string
  | TypeError string
  | KeyError string
  | AttributeError string
  | IndexError string
  | ZeroDivisionError string
  | ValidationError string
  | CollaboratorError string

text \<open>Truth value of an object, as \<^verbatim>\<open>if x:\<close> and \<^verbatim>\<open>not x\<close> read it.\<close>

fun truthy :: "pyval \<Rightarrow> bool" where
  "truthy VNone = False"
| "truthy (VBool b) = b"
| "truthy (VInt n) = (n \<noteq> 0)"
| "truthy (VStr s) = (s \<noteq> [])"
| "truthy (VList xs) = (xs \<noteq> [])"
| "truthy (VDict d) = (d \<noteq> [])"

fun is_str :: "pyval \<Rightarrow> bool" where
  "is_str (VStr s) = True"
| "is_str v = False"


fun is_dict :: "pyval \<Rightarrow> bool" where
  "is_dict (VDict d) = True"
| "is_dict v = False"

text \<open>\<^verbatim>\<open>d.get(k, default)\<close>, \<^verbatim>\<open>k in d\<close> and \<^verbatim>\<open>d[k]\<close> on a dictionary.\<close>

definition dict_get :: "pydict \<Rightarrow> string \<Rightarrow> pyval \<Rightarrow> pyval" where
  "dict_get d k dflt = (case map_of d k of None \<Rightarrow> dflt | Some v \<Rightarrow> v)"

definition has_key :: "pydict \<Rightarrow> string \<Rightarrow> bool" where
  "has_key d k = (map_of d k \<noteq> None)"

definition dict_item :: "pydict \<Rightarrow> string \<Rightarrow> error + pyval" where
  "dict_item d k = (case map_of d k of None \<Rightarrow> Inl (KeyError k) | Some v \<Rightarrow> Inr v)"

text \<open>\<^verbatim>\<open>x[k]\<close> on any object: only a dictionary can be subscripted by a string.\<close>

fun subscript :: "pyval \<Rightarrow> string \<Rightarrow> error + pyval" where
  "subscript (VDict d) k = dict_item d k"
| "subscript (VList xs) k = Inl (TypeError ''list indices must be integers or slices, not str'')"
| "subscript (VStr s) k = Inl (TypeError ''string indices must be integers, not str'')"
| "subscript v k = Inl (TypeError ''object is not subscriptable'')"

text \<open>
  \<^verbatim>\<open>k in x\<close> for a string \<open>k\<close>: membership in a list, key membership in a
  dictionary, and the substring test when \<open>x\<close> is itself a string.
\<close>

fun py_in :: "string \<Rightarrow> pyval \<Rightarrow> error + bool" where
  "py_in k (VList xs) = Inr (VStr k \<in> set xs)"
| "py_in k (VStr s) = Inr (sublist k s)"
| "py_in k (VDict d) = Inr (has_key d k)"
| "py_in k v = Inl (TypeError ''argument is not iterable'')"

text \<open>Iteration \<^verbatim>\<open>for x in v\<close>: a string yields its characters as one-character strings.\<close>

fun py_iter :: "pyval \<Rightarrow> error + pyval list" where
  "py_iter (VList xs) = Inr xs"
| "py_iter (VStr s) = Inr (map (\<lambda>c. VStr [c]) s)"
| "py_iter (VDict d) = Inr (map (\<lambda>kv. VStr (fst kv)) d)"
| "py_iter v = Inl (TypeError ''object is not iterable'')"

text \<open>Sequencing of a computation that may raise.\<close>

definition bind :: "error + 'a \<Rightarrow> ('a \<Rightarrow> error + 'b) \<Rightarrow> error + 'b" where
  "bind m f = (case m of Inl e \<Rightarrow> Inl e | Inr x \<Rightarrow> f x)"

text \<open>A loop body run over a list, stopping at the first exception.\<close>

fun mapM :: "('a \<Rightarrow> error + 'b) \<Rightarrow> 'a list \<Rightarrow> error + 'b list" where
  "mapM f [] = Inr []"
| "mapM f (x # xs) = bind (f x) (\<lambda>y. bind (mapM f xs) (\<lambda>ys. Inr (y # ys)))"

section \<open>Collaborators\<close>

text \<open>
  Jinja2 is a library: \<open>jinja_parse\<close> stands for \<^verbatim>\<open>Template(source)\<close> (it raises on a
  malformed template) and \<open>jinja_render autoescape source context\<close> for compiling
  \<open>source\<close> in an environment with the given \<^verbatim>\<open>autoescape\<close> setting and rendering it
  with the keyword arguments \<open>context\<close>.
\<close>

record jinja =
  jinja_parse :: "pyval \<Rightarrow> error + unit"
  jinja_render :: "bool \<Rightarrow> pyval \<Rightarrow> pydict \<Rightarrow> error + string"


text \<open>
  A stand-in for the library on the templates where its behaviour is plain: a string
  with no brace and no line break has no tag and no trailing newline to strip, so it
  renders to itself whatever the context and the escaping mode are. Every other source
  is refused.
\<close>

definition is_plain_template :: "string \<Rightarrow> bool" where
  "is_plain_template s = (CHR ''{'' \<notin> set s \<and> CHR 0x0A \<notin> set s)"

fun plain_source :: "pyval \<Rightarrow> error + string" where
  "plain_source (VStr s) =
     (if is_plain_template s then Inr s else Inl (CollaboratorError ''template with tags''))"
| "plain_source v = Inl (CollaboratorError ''template source is not a string'')"

definition plain_jinja :: jinja where
  "plain_jinja =
     \<lparr> jinja_parse = (\<lambda>t. case plain_source t of Inl e \<Rightarrow> Inl e | Inr s \<Rightarrow> Inr ()),
       jinja_render = (\<lambda>autoescape t ctx. plain_source t) \<rparr>"

text \<open>
  pydantic is a library (version 2: the source imports \<^verbatim>\<open>field_validator\<close>). A model
  checks the value given for a field against the annotation of the field, and the
  construction of the model raises one \<^verbatim>\<open>ValidationError\<close> (in Python a subclass of
  \<^verbatim>\<open>ValueError\<close>), which names every field whose value does not fit. A string fits \<^verbatim>\<open>str\<close> and nothing else of this development
  does; a list whose elements fit \<open>T\<close> fits \<^verbatim>\<open>List[T]\<close>, and a string is not taken for a
  list; a dictionary fits \<^verbatim>\<open>Dict[str, Any]\<close>, the keys of the dictionaries of this
  development being strings; \<^verbatim>\<open>None\<close> and what fits \<open>T\<close> fit \<^verbatim>\<open>Optional[T]\<close>. For
  \<^verbatim>\<open>int\<close> and \<^verbatim>\<open>bool\<close> the library converts some values of other types: these two
  checks are the parameters \<open>int_type\<close> and \<open>bool_type\<close>, which give the value the field
  gets, or nothing when the value does not fit.
\<close>

definition validation_error :: error where
  "validation_error = ValidationError ''{n} validation errors for schema''"

fun str_type :: "pyval \<Rightarrow> error + pyval" where
  "str_type (VStr s) = Inr (VStr s)"
| "str_type v = Inl validation_error"

fun dict_type :: "pyval \<Rightarrow> error + pyval" where
  "dict_type (VDict d) = Inr (VDict d)"
| "dict_type v = Inl validation_error"

fun list_type :: "(pyval \<Rightarrow> error + pyval) \<Rightarrow> pyval \<Rightarrow> error + pyval" where
  "list_type elem (VList xs) = bind (mapM elem xs) (\<lambda>ys. Inr (VList ys))"
| "list_type elem v = Inl validation_error"

definition optional :: "(pyval \<Rightarrow> error + pyval) \<Rightarrow> pyval \<Rightarrow> error + pyval" where
  "optional t v = (if v = VNone then Inr VNone else t v)"

definition converted :: "(pyval \<Rightarrow> pyval option) \<Rightarrow> pyval \<Rightarrow> error + pyval" where
  "converted t v = (case t v of None \<Rightarrow> Inl validation_error | Some v' \<Rightarrow> Inr v')"

record pydantic =
  int_type :: "pyval \<Rightarrow> pyval option"
  bool_type :: "pyval \<Rightarrow> pyval option"

text \<open>
  A stand-in for the two conversions, for the worked examples: an integer fits
  \<^verbatim>\<open>int\<close>, a truth value fits \<^verbatim>\<open>bool\<close>, and nothing is converted.
\<close>

definition exact_pydantic :: pydantic where
  "exact_pydantic =
     \<lparr> int_type = (\<lambda>v. case v of VInt i \<Rightarrow> Some v | _ \<Rightarrow> None),
       bool_type = (\<lambda>v. case v of VBool b \<Rightarrow> Some v | _ \<Rightarrow> None) \<rparr>"

text \<open>
  The model-invocation collaborator returns an Invocation Result. Costs are Python
  floats; the operators only add them up, left to right from zero, so the cost type is
  any type with a zero and an addition, and no law of arithmetic is assumed.
\<close>

record 'c llm_result =
  response :: pyval
  total_cost :: 'c
  validated :: bool

text \<open>
  \<open>self\<close>: the configuration dictionary, the attributes set by \<^verbatim>\<open>BaseOperation\<close>, and
  the collaborators reached through \<^verbatim>\<open>self.runner.api\<close>.
  \<^item> \<open>call_llm i args kwargs fn\<close> is the call made by unit of work \<open>i\<close> with the
    positional arguments \<open>args\<close> and the keyword arguments \<open>kwargs\<close>; \<open>fn\<close> is the
    \<^verbatim>\<open>validation_fn\<close> closure of the validation directive, when one is passed. The answer
    may depend on which unit asks.
  \<^item> \<open>parse_llm_response response kwargs\<close> returns the list of candidate parses.
  \<^item> \<open>Tool\<close> and \<open>gleaning_check\<close> stand for \<^verbatim>\<open>docetl.base_schemas.Tool(**tool)\<close> and
    \<^verbatim>\<open>BaseOperation.gleaning_check\<close>, which this file of the repository only calls.
  \<^item> \<open>base_schema cfg\<close> says whether the configuration passes the checks of
    \<^verbatim>\<open>BaseOperation.schema\<close>, the base class of both configuration schemas, which is not
    in this file: the checks of the fields declared there and of the keys that no field
    declares. \<open>validators\<close> are the conversions of the pydantic library.
  The rate limiter, the progress bar and the console status are observers and are left
  out.
\<close>

datatype tool_function = ToolFunction pyval pyval pyval | NotToolFunction pyval

record tool =
  tool_code :: pyval
  tool_function :: tool_function

record 'c operation =
  config :: pydict
  default_model :: pyval
  num_retries_on_validate_failure :: pyval
  manually_fix_errors :: pyval
  templates :: jinja
  call_llm :: "nat \<Rightarrow> pyval list \<Rightarrow> pydict \<Rightarrow> (pyval \<Rightarrow> error + pydict \<times> bool) option
                \<Rightarrow> error + 'c llm_result"
  parse_llm_response :: "pyval \<Rightarrow> pydict \<Rightarrow> error + pydict list"
  validate_output :: "pydict \<Rightarrow> pydict \<Rightarrow> error + bool"
  Tool :: "pyval \<Rightarrow> error + tool"
  gleaning_check :: "error + unit"
  base_schema :: "pydict \<Rightarrow> bool"
  validators :: pydantic

section \<open>Dictionary operations of the operators\<close>

text \<open>\<^verbatim>\<open>{k: v for k, v in item.items() if k not in drop_keys}\<close>.\<close>

fun dict_without :: "pyval \<Rightarrow> pydict \<Rightarrow> error + pydict" where
  "dict_without dk [] = Inr []"
| "dict_without dk ((k, v) # kvs) =
     bind (py_in k dk) (\<lambda>b.
     bind (dict_without dk kvs) (\<lambda>r.
     Inr (if b then r else (k, v) # r)))"

text \<open>\<^verbatim>\<open>d.update(other)\<close>, which is also \<^verbatim>\<open>{**d, **other}\<close> on a copy of \<open>d\<close>.\<close>

definition dict_update :: "pydict \<Rightarrow> pydict \<Rightarrow> pydict" where
  "dict_update d other = fold (\<lambda>kv acc. AList.update (fst kv) (snd kv) acc) other d"

text \<open>\<^verbatim>\<open>parse_llm_response(...)[0]\<close>.\<close>

definition first_parse :: "'c operation \<Rightarrow> pyval \<Rightarrow> pydict \<Rightarrow> error + pydict" where
  "first_parse self resp kwargs =
     bind (parse_llm_response self resp kwargs) (\<lambda>outs.
       case outs of [] \<Rightarrow> Inl (IndexError ''list index out of range'') | out # rest \<Rightarrow> Inr out)"

section \<open>The template renderer\<close>


definition render_jinja_template :: "jinja \<Rightarrow> pyval \<Rightarrow> pydict \<Rightarrow> error + string" where
  "render_jinja_template J template_string data =
     (if data = [] then Inr ''''
      else jinja_render J True template_string [(''input'', VDict data)])"

section \<open>The single-prompt operator\<close>

subsection \<open>The configuration schema\<close>

text \<open>
  \<^verbatim>\<open>MapOperation.schema\<close> is a pydantic model derived from \<^verbatim>\<open>BaseOperation.schema\<close>.
  \<^verbatim>\<open>self.schema(**self.config)\<close> checks, for every field, the value that the
  configuration gives under the name of the field (\<^verbatim>\<open>validation_rules\<close> under its alias
  \<^verbatim>\<open>validate\<close>) against the annotation of the field; a field that the configuration
  leaves out gets its default, which is not checked. When some value does not fit, the
  construction raises \<^verbatim>\<open>ValidationError\<close>.

  \<open>validate_drop_keys\<close> is registered by \<^verbatim>\<open>@field_validator("drop_keys")\<close>, with no
  \<^verbatim>\<open>mode\<close>: the library's default mode is \<^verbatim>\<open>after\<close>, so the function is applied to
  the value that has passed the check of \<^verbatim>\<open>Optional[List[str]]\<close>, and its result is
  the value of the field.
\<close>

definition validate_drop_keys :: "pyval \<Rightarrow> pyval" where
  "validate_drop_keys v = (if is_str v then VList [v] else v)"

definition schema_field ::
  "pydict \<Rightarrow> string \<Rightarrow> pyval \<Rightarrow> (pyval \<Rightarrow> error + pyval) \<Rightarrow> error + pyval" where
  "schema_field cfg name dflt annotation =
     (case map_of cfg name of None \<Rightarrow> Inr dflt | Some v \<Rightarrow> annotation v)"

record map_schema =
  schema_type :: pyval
  schema_output :: pyval
  schema_prompt :: pyval
  schema_model :: pyval
  schema_optimize :: pyval
  schema_recursively_optimize :: pyval
  schema_sample_size :: pyval
  schema_tools :: pyval
  schema_validation_rules :: pyval
  schema_num_retries_on_validate_failure :: pyval
  schema_gleaning :: pyval
  schema_drop_keys :: pyval
  schema_timeout :: pyval
  schema_batch_size :: pyval
  schema_clustering_method :: pyval

definition MapOperation_schema :: "'c operation \<Rightarrow> error + map_schema" where
  "MapOperation_schema self =
     (let cfg = config self;
          int_field = converted (int_type (validators self));
          bool_field = converted (bool_type (validators self)) in
      if \<not> base_schema self cfg then Inl validation_error
      else
        bind (schema_field cfg ''type'' (VStr ''map'') str_type) (\<lambda>ty.
        bind (schema_field cfg ''output'' VNone (optional dict_type)) (\<lambda>output.
        bind (schema_field cfg ''prompt'' VNone (optional str_type)) (\<lambda>prompt.
        bind (schema_field cfg ''model'' VNone (optional str_type)) (\<lambda>model.
        bind (schema_field cfg ''optimize'' VNone (optional bool_field)) (\<lambda>optimize.
        bind (schema_field cfg ''recursively_optimize'' VNone (optional bool_field))
          (\<lambda>recursively_optimize.
        bind (schema_field cfg ''sample_size'' VNone (optional int_field)) (\<lambda>sample_size.
        bind (schema_field cfg ''tools'' VNone (optional (list_type dict_type))) (\<lambda>tools.
        bind (schema_field cfg ''validate'' VNone (optional (list_type str_type)))
          (\<lambda>validation_rules.
        bind (schema_field cfg ''num_retries_on_validate_failure'' VNone (optional int_field))
          (\<lambda>num_retries.
        bind (schema_field cfg ''gleaning'' VNone (optional dict_type)) (\<lambda>gleaning.
        bind (schema_field cfg ''drop_keys'' VNone (optional (list_type str_type)))
          (\<lambda>drop_keys.
        bind (schema_field cfg ''timeout'' VNone (optional int_field)) (\<lambda>timeout.
        bind (schema_field cfg ''batch_size'' VNone (optional int_field)) (\<lambda>batch_size.
        bind (schema_field cfg ''clustering_method'' VNone (optional str_type))
          (\<lambda>clustering_method.
        Inr \<lparr> schema_type = ty,
              schema_output = output,
              schema_prompt = prompt,
              schema_model = model,
              schema_optimize = optimize,
              schema_recursively_optimize = recursively_optimize,
              schema_sample_size = sample_size,
              schema_tools = tools,
              schema_validation_rules = validation_rules,
              schema_num_retries_on_validate_failure = num_retries,
              schema_gleaning = gleaning,
              schema_drop_keys = validate_drop_keys drop_keys,
              schema_timeout = timeout,
              schema_batch_size = batch_size,
              schema_clustering_method = clustering_method \<rparr>))))))))))))))))"

subsection \<open>\<^verbatim>\<open>MapOperation.syntax_check\<close>\<close>

definition check_drop_keys_or_generative :: "map_schema \<Rightarrow> error + unit" where
  "check_drop_keys_or_generative c =
     (if truthy (schema_drop_keys c) then
        bind (py_iter (schema_drop_keys c)) (\<lambda>keys.
          if list_ex (\<lambda>key. \<not> is_str key) keys
          then Inl (TypeError ''All items in drop_keys must be strings'')
          else Inr ())
      else if \<not> (truthy (schema_prompt c) \<and> truthy (schema_output c)) then
        Inl (ValueError
          ''If drop_keys is not specified, both prompt and output must be present in the configuration'')
      else Inr ())"

definition check_required_keys :: "map_schema \<Rightarrow> error + unit" where
  "check_required_keys c =
     (if \<not> truthy (schema_prompt c) then
        Inl (ValueError ''Missing required key prompt in MapOperation configuration'')
      else if \<not> truthy (schema_output c) then
        Inl (ValueError ''Missing required key output in MapOperation configuration'')
      else Inr ())"

definition check_output_schema :: "map_schema \<Rightarrow> error + unit" where
  "check_output_schema c =
     (if truthy (schema_output c) then
        bind (subscript (schema_output c) ''schema'') (\<lambda>sch.
          if \<not> truthy sch then Inl (ValueError ''Missing schema in output configuration'')
          else Inr ())
      else Inr ())"

definition check_prompt_template :: "'c operation \<Rightarrow> map_schema \<Rightarrow> error + unit" where
  "check_prompt_template self c =
     (if truthy (schema_prompt c) then
        (case jinja_parse (templates self) (schema_prompt c) of
           Inl e \<Rightarrow> Inl (ValueError ''Invalid Jinja2 template in prompt: {str(e)}'')
         | Inr u \<Rightarrow> Inr ())
      else Inr ())"

definition check_model :: "map_schema \<Rightarrow> error + unit" where
  "check_model c =
     (if truthy (schema_model c) \<and> \<not> is_str (schema_model c)
      then Inl (TypeError ''model in configuration must be a string'')
      else Inr ())"

fun truthy_function :: "tool_function \<Rightarrow> bool" where
  "truthy_function (ToolFunction n d p) = True"
| "truthy_function (NotToolFunction v) = truthy v"

definition check_tool :: "'c operation \<Rightarrow> pyval \<Rightarrow> error + unit" where
  "check_tool self t =
     (case Tool self t of
        Inl e \<Rightarrow> Inl (TypeError ''Tool must be a dictionary'')
      | Inr tool_obj \<Rightarrow>
          if \<not> (truthy (tool_code tool_obj) \<and> truthy_function (tool_function tool_obj)) then
            Inl (ValueError ''Tool is missing required code or function key'')
          else
            (case tool_function tool_obj of
               NotToolFunction v \<Rightarrow> Inl (TypeError ''function in tool must be a dictionary'')
             | ToolFunction n d p \<Rightarrow>
                 if \<not> truthy n then
                   Inl (ValueError ''Tool is missing required name in function'')
                 else if \<not> truthy d then
                   Inl (ValueError ''Tool is missing required description in function'')
                 else if \<not> truthy p then
                   Inl (ValueError ''Tool is missing required parameters in function'')
                 else Inr ()))"

definition check_tools :: "'c operation \<Rightarrow> map_schema \<Rightarrow> error + unit" where
  "check_tools self c =
     (if truthy (schema_tools c) then
        bind (py_iter (schema_tools c)) (\<lambda>ts.
        bind (mapM (check_tool self) ts) (\<lambda>us. Inr ()))
      else Inr ())"

definition MapOperation_syntax_check :: "'c operation \<Rightarrow> error + unit" where
  "MapOperation_syntax_check self =
     bind (MapOperation_schema self) (\<lambda>c.
      bind (check_drop_keys_or_generative c) (\<lambda>u.
      if truthy (schema_prompt c) \<or> truthy (schema_output c) then
        bind (check_required_keys c) (\<lambda>u.
        bind (check_output_schema c) (\<lambda>u.
        bind (check_prompt_template self c) (\<lambda>u.
        bind (check_model c) (\<lambda>u.
        bind (check_tools self c) (\<lambda>u.
        gleaning_check self)))))
      else Inr ()))"

subsection \<open>\<^verbatim>\<open>MapOperation.execute\<close>\<close>

text \<open>The arguments every call of \<^verbatim>\<open>parse_llm_response\<close> of this operator gets.\<close>

definition parse_kwargs :: "'c operation \<Rightarrow> pyval \<Rightarrow> pyval \<Rightarrow> pydict" where
  "parse_kwargs self sch tls =
     [(''schema'', sch), (''tools'', tls), (''manually_fix_errors'', manually_fix_errors self)]"

definition output_schema_of :: "pydict \<Rightarrow> error + pyval" where
  "output_schema_of cfg = bind (dict_item cfg ''output'') (\<lambda>out. subscript out ''schema'')"

text \<open>
  The loop of \<^verbatim>\<open>validation_fn\<close>: every field of the item whose name is not in the
  schema is written into the parsed output.
\<close>

fun backfill :: "pyval \<Rightarrow> pydict \<Rightarrow> pydict \<Rightarrow> error + pydict" where
  "backfill sch [] out = Inr out"
| "backfill sch ((k, v) # kvs) out =
     bind (py_in k sch) (\<lambda>b. backfill sch kvs (if b then out else AList.update k v out))"

definition validation_fn :: "'c operation \<Rightarrow> pydict \<Rightarrow> pyval \<Rightarrow> error + pydict \<times> bool" where
  "validation_fn self item resp =
     bind (output_schema_of (config self)) (\<lambda>sch.
     bind (first_parse self resp
             (parse_kwargs self sch (dict_get (config self) ''tools'' VNone))) (\<lambda>out.
     bind (backfill sch item out) (\<lambda>out'.
     bind (validate_output self (config self) out') (\<lambda>ok.
     Inr (out', ok)))))"

text \<open>The prompt of one item: \<^verbatim>\<open>Template(self.config["prompt"]).render(input=item)\<close>.\<close>

definition map_prompt :: "'c operation \<Rightarrow> pydict \<Rightarrow> error + string" where
  "map_prompt self item =
     bind (dict_item (config self) ''prompt'') (\<lambda>src.
     bind (jinja_parse (templates self) src) (\<lambda>u.
     jinja_render (templates self) False src [(''input'', VDict item)]))"

definition user_message :: "string \<Rightarrow> pyval" where
  "user_message prompt = VList [VDict [(''role'', VStr ''user''), (''content'', VStr prompt)]]"

definition map_call_kwargs :: "'c operation \<Rightarrow> pydict" where
  "map_call_kwargs self =
     [(''tools'', dict_get (config self) ''tools'' VNone),
      (''scratchpad'', VNone),
      (''timeout_seconds'', dict_get (config self) ''timeout'' (VInt 120)),
      (''max_retries_per_timeout'', dict_get (config self) ''max_retries_per_timeout'' (VInt 2)),
      (''validation_config'',
         if truthy (dict_get (config self) ''validate'' VNone)
         then VDict [(''num_retries'', num_retries_on_validate_failure self),
                     (''val_rule'', dict_get (config self) ''validate'' (VList []))]
         else VNone),
      (''gleaning_config'', dict_get (config self) ''gleaning'' VNone),
      (''verbose'', dict_get (config self) ''verbose'' (VBool False)),
      (''bypass_cache'', dict_get (config self) ''bypass_cache'' (VBool False))]"

text \<open>
  The first half of \<^verbatim>\<open>_process_map_item\<close>: the prompt is rendered and the collaborator
  is called; the value is the Invocation Result.
\<close>

definition map_llm_call :: "'c operation \<Rightarrow> nat \<Rightarrow> pydict \<Rightarrow> error + 'c llm_result" where
  "map_llm_call self i item =
     bind (map_prompt self item) (\<lambda>prompt.
     bind (output_schema_of (config self)) (\<lambda>sch.
     call_llm self i
       [dict_get (config self) ''model'' (default_model self), VStr ''map'',
        user_message prompt, sch]
       (map_call_kwargs self)
       (if truthy (dict_get (config self) ''validate'' VNone)
        then Some (validation_fn self item) else None)))"

definition process_map_item ::
  "'c operation \<Rightarrow> nat \<Rightarrow> pydict \<Rightarrow> error + pydict option \<times> 'c" where
  "process_map_item self i item =
     bind (map_llm_call self i item) (\<lambda>llm_result.
     if validated llm_result then
       bind (output_schema_of (config self)) (\<lambda>sch.
       bind (first_parse self (response llm_result)
               (parse_kwargs self sch (dict_get (config self) ''tools'' VNone))) (\<lambda>out.
       Inr (Some (dict_update item out), total_cost llm_result)))
     else Inr (None, total_cost llm_result))"

text \<open>
  The projection inside the loop: \<^verbatim>\<open>if "drop_keys" in self.config:\<close> the result is
  replaced by its fields whose name is not in \<^verbatim>\<open>drop_keys\<close>.
\<close>

definition project_result :: "pydict \<Rightarrow> pydict \<Rightarrow> error + pydict" where
  "project_result cfg result =
     (if has_key cfg ''drop_keys''
      then dict_without (dict_get cfg ''drop_keys'' VNone) result
      else Inr result)"

text \<open>
  The loop over the futures, in the order of submission: \<^verbatim>\<open>futures[i].result()\<close> gives
  the unit's outcome or raises what the unit raised.
\<close>

fun collect_results ::
  "pydict \<Rightarrow> (error + pydict option \<times> 'c) list \<Rightarrow> pydict list \<Rightarrow> 'c::plus
     \<Rightarrow> error + pydict list \<times> 'c" where
  "collect_results cfg [] results acc = Inr (results, acc)"
| "collect_results cfg (fut # futs) results acc =
     bind fut (\<lambda>outcome.
       case fst outcome of
         None \<Rightarrow> collect_results cfg futs results (acc + snd outcome)
       | Some result \<Rightarrow>
           bind (project_result cfg result) (\<lambda>result'.
             collect_results cfg futs (results @ [result']) (acc + snd outcome)))"

definition MapOperation_execute ::
  "('c::{plus,zero}) operation \<Rightarrow> pydict list \<Rightarrow> error + pydict list \<times> 'c" where
  "MapOperation_execute self input_data =
     (if \<not> has_key (config self) ''prompt'' \<and> has_key (config self) ''drop_keys'' then
        bind (mapM (dict_without (dict_get (config self) ''drop_keys'' VNone)) input_data)
          (\<lambda>dropped_results. Inr (dropped_results, 0))
      else
        (let futures = map (\<lambda>p. process_map_item self (fst p) (snd p)) (enumerate 0 input_data) in
         bind (dict_item (config self) ''name'') (\<lambda>name.
         collect_results (config self) futures [] 0)))"

section \<open>The multi-prompt operator\<close>

subsection \<open>\<^verbatim>\<open>ParallelMapOperation.syntax_check\<close>\<close>



text \<open>Only a hashable object can be put into a set.\<close>

fun hashable :: "pyval \<Rightarrow> bool" where
  "hashable (VList xs) = False"
| "hashable (VDict d) = False"
| "hashable v = True"

text \<open>
  \<^verbatim>\<open>output_keys_covered\<close> after the loop that updates it with every entry's
  \<^verbatim>\<open>output_keys\<close>: the keys in the order they were added.
\<close>

fun output_keys_covered :: "pyval list \<Rightarrow> error + pyval list" where
  "output_keys_covered [] = Inr []"
| "output_keys_covered (prompt_config # rest) =
     bind (subscript prompt_config ''output_keys'') (\<lambda>oks.
     bind (py_iter oks) (\<lambda>keys.
       if list_ex (\<lambda>key. \<not> hashable key) keys then Inl (TypeError ''unhashable type'')
       else bind (output_keys_covered rest) (\<lambda>more. Inr (keys @ more))))"





subsection \<open>\<^verbatim>\<open>ParallelMapOperation.execute\<close>\<close>

text \<open>\<^verbatim>\<open>x.get(k, default)\<close> on any object.\<close>

fun py_get :: "pyval \<Rightarrow> string \<Rightarrow> pyval \<Rightarrow> error + pyval" where
  "py_get (VDict d) k dflt = Inr (dict_get d k dflt)"
| "py_get v k dflt = Inl (AttributeError ''object has no attribute get'')"

text \<open>
  \<^verbatim>\<open>{key: output_schema[key] for key in prompt_config["output_keys"]}\<close>. The
  dictionaries of this development have string keys: a key that is not a string is not
  a key of the schema, and the lookup raises.
\<close>

fun schema_slice :: "pyval \<Rightarrow> pyval list \<Rightarrow> pydict \<Rightarrow> error + pydict" where
  "schema_slice sch [] acc = Inr acc"
| "schema_slice sch (key # keys) acc =
     (case key of
        VStr k \<Rightarrow> bind (subscript sch k) (\<lambda>v. schema_slice sch keys (AList.update k v acc))
      | VList xs \<Rightarrow> Inl (TypeError ''unhashable type'')
      | VDict d \<Rightarrow> Inl (TypeError ''unhashable type'')
      | _ \<Rightarrow> Inl (KeyError ''{key}''))"

definition parallel_call_kwargs :: "'c operation \<Rightarrow> pyval \<Rightarrow> pydict" where
  "parallel_call_kwargs self tls =
     [(''tools'', tls),
      (''timeout_seconds'', dict_get (config self) ''timeout'' (VInt 120)),
      (''max_retries_per_timeout'', dict_get (config self) ''max_retries_per_timeout'' (VInt 2)),
      (''bypass_cache'', dict_get (config self) ''bypass_cache'' (VBool False))]"

definition process_prompt ::
  "'c operation \<Rightarrow> pyval \<Rightarrow> nat \<Rightarrow> pydict \<Rightarrow> pyval \<Rightarrow> error + pydict \<times> 'c" where
  "process_prompt self output_schema i item prompt_config =
     bind (subscript prompt_config ''prompt'') (\<lambda>src.
     bind (render_jinja_template (templates self) src item) (\<lambda>prompt.
     bind (subscript prompt_config ''output_keys'') (\<lambda>oks.
     bind (py_iter oks) (\<lambda>keys.
     bind (schema_slice output_schema keys []) (\<lambda>local_output_schema.
     bind (py_get prompt_config ''model'' (default_model self)) (\<lambda>mdl.
     bind (py_get prompt_config ''tools'' VNone) (\<lambda>tls.
     bind (call_llm self i
             [mdl, VStr ''parallel_map'', user_message prompt, VDict local_output_schema]
             (parallel_call_kwargs self tls) None) (\<lambda>resp.
     bind (first_parse self (response resp)
             (parse_kwargs self (VDict local_output_schema) tls)) (\<lambda>out.
     Inr (out, total_cost resp))))))))))"

text \<open>
  The loop over \<^verbatim>\<open>all_futures\<close>: \<open>i\<close> is the index of the future, \<open>n\<close> the number
  of prompts, \<open>results\<close> the dictionary from item index to the item's running result.
\<close>

fun reassemble ::
  "pydict list \<Rightarrow> nat \<Rightarrow> nat \<Rightarrow> (error + pydict \<times> 'c) list \<Rightarrow> (nat \<times> pydict) list \<Rightarrow> 'c::plus
     \<Rightarrow> error + (nat \<times> pydict) list \<times> 'c" where
  "reassemble input_data n i [] results acc = Inr (results, acc)"
| "reassemble input_data n i (fut # futs) results acc =
     bind fut (\<lambda>outcome.
       if n = 0 then Inl (ZeroDivisionError ''integer division or modulo by zero'')
       else
         bind (if i mod n = 0 then
                 (if i div n < length input_data
                  then Inr (AList.update (i div n) (input_data ! (i div n)) results)
                  else Inl (IndexError ''list index out of range''))
               else Inr results) (\<lambda>results1.
         case map_of results1 (i div n) of
           None \<Rightarrow> Inl (KeyError ''{item_index}'')
         | Some item_result \<Rightarrow>
             reassemble input_data n (Suc i) futs
               (AList.update (i div n) (dict_update item_result (fst outcome)) results1)
               (acc + snd outcome)))"

text \<open>\<^verbatim>\<open>for key in drop_keys: item.pop(key, None)\<close>.\<close>

fun pop_keys :: "pyval list \<Rightarrow> pydict \<Rightarrow> error + pydict" where
  "pop_keys [] item = Inr item"
| "pop_keys (key # keys) item =
     (case key of
        VStr k \<Rightarrow> pop_keys keys (AList.delete k item)
      | VList xs \<Rightarrow> Inl (TypeError ''unhashable type'')
      | VDict d \<Rightarrow> Inl (TypeError ''unhashable type'')
      | _ \<Rightarrow> pop_keys keys item)"

definition apply_drop_keys ::
  "pydict \<Rightarrow> (nat \<times> pydict) list \<Rightarrow> error + (nat \<times> pydict) list" where
  "apply_drop_keys cfg results =
     (if has_key cfg ''drop_keys'' then
        (if results = [] then Inr results
         else
           bind (py_iter (dict_get cfg ''drop_keys'' VNone)) (\<lambda>keys.
           mapM (\<lambda>entry. bind (pop_keys keys (snd entry)) (\<lambda>item. Inr (fst entry, item)))
             results))
      else Inr results)"

text \<open>
  All units of work, item-major and prompt-minor, as the nested comprehension submits
  them; the prompts are read only when there is an item.
\<close>

definition all_futures ::
  "'c operation \<Rightarrow> pyval \<Rightarrow> pydict list \<Rightarrow> pyval list \<Rightarrow> (error + pydict \<times> 'c) list" where
  "all_futures self output_schema input_data prompt_configs =
     map (\<lambda>u. process_prompt self output_schema (fst u) (fst (snd u)) (snd (snd u)))
       (enumerate 0 (List.product input_data prompt_configs))"

definition ordered_results :: "'a list \<Rightarrow> (nat \<times> 'b) list \<Rightarrow> 'b list" where
  "ordered_results input_data results =
     List.map_filter (map_of results) [0..<length input_data]"

definition ParallelMapOperation_execute ::
  "('c::{plus,zero}) operation \<Rightarrow> pydict list \<Rightarrow> error + pydict list \<times> 'c" where
  "ParallelMapOperation_execute self input_data =
     bind (py_get (dict_get (config self) ''output'' (VDict [])) ''schema'' (VDict []))
       (\<lambda>output_schema.
     if \<not> has_key (config self) ''prompts'' \<and> has_key (config self) ''drop_keys'' then
       bind (mapM (dict_without (dict_get (config self) ''drop_keys'' VNone)) input_data)
         (\<lambda>dropped_results. Inr (dropped_results, 0))
     else
       bind (if has_key (config self) ''prompts'' then
               (if input_data = [] then Inr ([], 0)
                else
                  bind (py_iter (dict_get (config self) ''prompts'' VNone)) (\<lambda>prompt_configs.
                  reassemble input_data (length prompt_configs) 0
                    (all_futures self output_schema input_data prompt_configs) [] 0))
             else Inr (enumerate 0 input_data, 0)) (\<lambda>folded.
       bind (apply_drop_keys (config self) (fst folded)) (\<lambda>results.
       Inr (ordered_results input_data results, snd folded))))"

section \<open>Stub collaborators for the worked examples\<close>

text \<open>
  A collaborator that answers unit \<open>i\<close> with \<open>answers i\<close> and whose parser takes a
  response that is already a dictionary as its only parse. Costs are whole numbers here.
  The checks of the base schema pass on every configuration.
\<close>

definition stub_parse :: "pyval \<Rightarrow> pydict \<Rightarrow> error + pydict list" where
  "stub_parse resp kwargs =
     (case resp of VDict d \<Rightarrow> Inr [d] | _ \<Rightarrow> Inl (CollaboratorError ''unparsable response''))"

definition stub_operation :: "pydict \<Rightarrow> (nat \<Rightarrow> int llm_result) \<Rightarrow> int operation" where
  "stub_operation cfg answers =
     \<lparr> config = cfg,
       default_model = VStr ''gpt-4o-mini'',
       num_retries_on_validate_failure = VInt 0,
       manually_fix_errors = VBool False,
       templates = plain_jinja,
       call_llm = (\<lambda>i args kwargs fn. Inr (answers i)),
       parse_llm_response = stub_parse,
       validate_output = (\<lambda>cfg out. Inr True),
       Tool = (\<lambda>t. Inl (TypeError ''no tool'')),
       gleaning_check = Inr (),
       base_schema = (\<lambda>cfg. True),
       validators = exact_pydantic \<rparr>"

text \<open>
  The answers of the worked examples: a result that never passed validation and one
  that did, each at a cost of one unit; and a collaborator that hands back, as its
  response, the positional arguments it was called with.
\<close>

definition rejected_answer :: "int llm_result" where
  "rejected_answer = \<lparr> response = VNone, total_cost = 1, validated = False \<rparr>"

definition accepted_answer :: "int llm_result" where
  "accepted_answer =
     \<lparr> response = VDict [(''echo'', VStr ''hello'')], total_cost = 1, validated = True \<rparr>"

definition echo_operation :: "pydict \<Rightarrow> int operation" where
  "echo_operation cfg =
     (stub_operation cfg (\<lambda>i. rejected_answer))
       \<lparr> call_llm :=
           (\<lambda>i args kwargs fn.
              Inr \<lparr> response = VList args, total_cost = 1, validated = True \<rparr>) \<rparr>"

definition example_item :: pydict where
  "example_item = [(''id'', VInt 1), (''text'', VStr ''hello'')]"

definition example_config :: pydict where
  "example_config =
     [(''name'', VStr ''echo''), (''type'', VStr ''map''),
      (''prompt'', VStr ''Echo the text''),
      (''output'', VDict [(''schema'', VDict [(''echo'', VStr ''string'')])])]"



text \<open>
  Three input records; a collaborator that rejects the second unit and accepts every
  other one; a collaborator whose answer to unit \<open>i\<close> is the number \<open>i\<close>, under the key
  \<^verbatim>\<open>a\<close> for an even unit and \<^verbatim>\<open>b\<close> for an odd one; and a multi-prompt configuration
  with one prompt for each of these keys.
\<close>

definition example_items :: "pydict list" where
  "example_items = [example_item, [(''id'', VInt 2)], [(''id'', VInt 3)]]"

definition second_rejected :: "nat \<Rightarrow> int llm_result" where
  "second_rejected i = (if i = 1 then rejected_answer else accepted_answer)"

definition indexed_answer :: "nat \<Rightarrow> int llm_result" where
  "indexed_answer i =
     \<lparr> response = VDict [(if even i then ''a'' else ''b'', VInt (int i))],
       total_cost = 1, validated = True \<rparr>"

definition two_prompt_config :: pydict where
  "two_prompt_config =
     [(''name'', VStr ''rate''), (''type'', VStr ''parallel_map''),
      (''prompts'', VList [VDict [(''prompt'', VStr ''Rate the text''),
                                  (''output_keys'', VList [VStr ''a''])],
                           VDict [(''prompt'', VStr ''Tag the text''),
                                  (''output_keys'', VList [VStr ''b''])]]),
      (''output'', VDict [(''schema'', VDict [(''a'', VStr ''integer''),
                                              (''b'', VStr ''integer'')])])]"

section \<open>The operators on a store of records\<close>






















section \<open>Properties\<close>

text \<open>
  Claim C8. On the empty record \<open>render_jinja_template\<close> returns the empty string
  whatever the template is and whatever the Jinja library would do with it (the library
  is not called); on a non-empty record the result is the library's rendering of the
  template with auto-escaping on and the record as the single variable \<open>input\<close>.
\<close>

theorem render_jinja_template_contract:
  "render_jinja_template J t [] = Inr ''''
   \<and> (data \<noteq> [] \<longrightarrow>
        render_jinja_template J t data = jinja_render J True t [(''input'', VDict data)])"
  by (simp add: render_jinja_template_def)

theorem render_jinja_template_contract_witness:
  "render_jinja_template plain_jinja (VStr ''Hello'') [] = Inr ''''
   \<and> [(''id'', VInt 1)] \<noteq> ([] :: pydict)
   \<and> render_jinja_template plain_jinja (VStr ''Hello'') [(''id'', VInt 1)] = Inr ''Hello''"
  using render_jinja_template_contract [of plain_jinja "VStr ''Hello''" "[(''id'', VInt 1)]"]
  by (simp add: plain_jinja_def is_plain_template_def)

subsection \<open>Auxiliary facts\<close>

lemma bind_Inr: "bind (Inr x) f = f x"
  by (simp add: bind_def)

lemma bind_Inl: "bind (Inl e) f = Inl e"
  by (simp add: bind_def)

lemma bind_eq_Inr: "bind m f = Inr y \<longleftrightarrow> (\<exists>x. m = Inr x \<and> f x = Inr y)"
  by (cases m) (simp_all add: bind_def)

lemma dict_get_Some: "map_of d k = Some v \<Longrightarrow> dict_get d k dflt = v"
  by (simp add: dict_get_def)

lemma has_key_Some: "map_of d k = Some v \<Longrightarrow> has_key d k"
  by (simp add: has_key_def)

lemma mapM_Inr: "(\<And>x. x \<in> set xs \<Longrightarrow> f x = Inr (g x)) \<Longrightarrow> mapM f xs = Inr (map g xs)"
  by (induction xs) (auto simp: bind_def)

text \<open>Against a list, the comprehension keeps exactly the fields whose name is not an element.\<close>

lemma dict_without_list:
  "dict_without (VList ks) item = Inr (filter (\<lambda>kv. VStr (fst kv) \<notin> set ks) item)"
  by (induction item) (auto simp: bind_def)

text \<open>Updating with a dictionary: its bindings win, the others stay.\<close>

lemma map_of_fold_update:
  "map_of (fold (\<lambda>kv acc. AList.update (fst kv) (snd kv) acc) other d) =
     map_of d ++ map_of (rev other)"
proof (induction other arbitrary: d)
  case Nil
  show ?case by simp
next
  case (Cons kv other)
  have "map_of (rev (kv # other)) = [fst kv \<mapsto> snd kv] ++ map_of (rev other)"
    by (cases kv) (simp add: map_of_append)
  moreover have "map_of (AList.update (fst kv) (snd kv) d) = map_of d ++ [fst kv \<mapsto> snd kv]"
    by (simp add: update_conv')
  ultimately show ?case using Cons.IH [of "AList.update (fst kv) (snd kv) d"]
    by (simp only: fold_simps map_add_assoc)
qed

lemma map_of_dict_update:
  assumes "wf_dict other"
  shows "map_of (dict_update d other) k =
     (case map_of other k of Some v \<Rightarrow> Some v | None \<Rightarrow> map_of d k)"
proof -
  have "distinct (map fst (rev other))"
    using assms by (simp add: wf_dict_def rev_map [symmetric])
  with assms have "map_of (rev other) = map_of other"
    by (simp add: wf_dict_def map_of_inject_set)
  then show ?thesis
    by (simp add: dict_update_def map_of_fold_update map_add_def)
qed

lemma wf_dict_fold_update:
  "wf_dict d \<Longrightarrow> wf_dict (fold (\<lambda>kv acc. AList.update (fst kv) (snd kv) acc) other d)"
  by (induction other arbitrary: d) (simp_all add: wf_dict_def distinct_update)

lemma wf_dict_update: "wf_dict d \<Longrightarrow> wf_dict (dict_update d other)"
  by (simp add: dict_update_def wf_dict_fold_update)

text \<open>The loop over the futures can be cut at any point: the second part starts from the
  records and the cost the first part ended with.\<close>

lemma collect_results_append:
  "collect_results cfg (fs1 @ fs2) rs c =
     bind (collect_results cfg fs1 rs c) (\<lambda>s. collect_results cfg fs2 (fst s) (snd s))"
proof (induction fs1 arbitrary: rs c)
  case Nil
  show ?case by (simp add: bind_Inr)
next
  case (Cons f fs1)
  show ?case
  proof (cases f)
    case (Inl e)
    then show ?thesis by (simp add: bind_Inl)
  next
    case (Inr outcome)
    show ?thesis
    proof (cases "fst outcome")
      case None
      with Inr Cons.IH show ?thesis by (simp add: bind_Inr)
    next
      case (Some r)
      show ?thesis
      proof (cases "project_result cfg r")
        case (Inl e)
        with \<open>f = Inr outcome\<close> Some show ?thesis by (simp add: bind_Inr bind_Inl)
      next
        case (Inr r')
        with \<open>f = Inr outcome\<close> Some Cons.IH show ?thesis by (simp add: bind_Inr)
      qed
    qed
  qed
qed

lemma map_llm_call_has_prompt:
  "map_llm_call self i item = Inr res \<Longrightarrow> has_key (config self) ''prompt''"
  by (auto simp: map_llm_call_def map_prompt_def bind_eq_Inr dict_item_def has_key_def
      split: option.splits)

text \<open>The definitions a worked example unfolds.\<close>

lemmas example_defs = stub_operation_def echo_operation_def example_item_def example_config_def
  rejected_answer_def accepted_answer_def plain_jinja_def is_plain_template_def
  bind_def dict_item_def dict_get_def has_key_def project_result_def

lemmas schema_defs = schema_field_def optional_def converted_def exact_pydantic_def

subsection \<open>The fast path\<close>

text \<open>
  Claim C3. Let the configuration carry \<^verbatim>\<open>drop_keys\<close> as a list \<open>ks\<close>. If it has no
  \<^verbatim>\<open>prompt\<close>, \<open>MapOperation_execute\<close> returns, in the order of the input, every input
  record restricted to the fields whose name is not an element of \<open>ks\<close> (a name of \<open>ks\<close>
  that a record lacks changes nothing), and the cost zero. If it has no \<^verbatim>\<open>prompts\<close>
  (and its \<^verbatim>\<open>output\<close> entry, when there is one, is a dictionary),
  \<open>ParallelMapOperation_execute\<close> returns the same. Neither result mentions a
  collaborator: no model is invoked.
\<close>

theorem drop_keys_only:
  assumes dk: "map_of (config self) ''drop_keys'' = Some (VList ks)"
  shows "(\<not> has_key (config self) ''prompt'' \<longrightarrow>
            MapOperation_execute self input_data =
              Inr (map (filter (\<lambda>kv. VStr (fst kv) \<notin> set ks)) input_data, 0))
       \<and> (\<not> has_key (config self) ''prompts''
            \<and> is_dict (dict_get (config self) ''output'' (VDict [])) \<longrightarrow>
            ParallelMapOperation_execute self input_data =
              Inr (map (filter (\<lambda>kv. VStr (fst kv) \<notin> set ks)) input_data, 0))"
proof -
  have fast: "mapM (dict_without (dict_get (config self) ''drop_keys'' VNone)) input_data
      = Inr (map (filter (\<lambda>kv. VStr (fst kv) \<notin> set ks)) input_data)"
    by (rule mapM_Inr) (simp add: dict_get_Some [OF dk] dict_without_list)
  have single: "MapOperation_execute self input_data =
      Inr (map (filter (\<lambda>kv. VStr (fst kv) \<notin> set ks)) input_data, 0)"
    if "\<not> has_key (config self) ''prompt''"
    using that by (simp add: MapOperation_execute_def has_key_Some [OF dk] fast bind_Inr)
  have multi: "ParallelMapOperation_execute self input_data =
      Inr (map (filter (\<lambda>kv. VStr (fst kv) \<notin> set ks)) input_data, 0)"
    if np: "\<not> has_key (config self) ''prompts''"
      and out: "is_dict (dict_get (config self) ''output'' (VDict []))"
  proof -
    obtain d where d: "dict_get (config self) ''output'' (VDict []) = VDict d"
      using out by (cases "dict_get (config self) ''output'' (VDict [])") simp_all
    show ?thesis
      by (simp add: ParallelMapOperation_execute_def d np has_key_Some [OF dk] fast bind_Inr)
  qed
  from single multi show ?thesis by blast
qed

theorem drop_keys_only_witness:
  "map_of [(''name'', VStr ''proj''), (''drop_keys'', VList [VStr ''text'', VStr ''absent''])]
      ''drop_keys''
     = Some (VList [VStr ''text'', VStr ''absent''])
   \<and> MapOperation_execute
        (stub_operation
           [(''name'', VStr ''proj''), (''drop_keys'', VList [VStr ''text'', VStr ''absent''])]
           (\<lambda>i. rejected_answer))
        [example_item, [(''text'', VStr ''x'')]] = Inr ([[(''id'', VInt 1)], []], 0)
   \<and> ParallelMapOperation_execute
        (stub_operation
           [(''name'', VStr ''proj''), (''drop_keys'', VList [VStr ''text'', VStr ''absent''])]
           (\<lambda>i. rejected_answer))
        [example_item, [(''text'', VStr ''x'')]] = Inr ([[(''id'', VInt 1)], []], 0)"
  using drop_keys_only [of "stub_operation
           [(''name'', VStr ''proj''), (''drop_keys'', VList [VStr ''text'', VStr ''absent''])]
           (\<lambda>i. rejected_answer)" "[VStr ''text'', VStr ''absent'']"
           "[example_item, [(''text'', VStr ''x'')]]"]
  by (simp add: example_defs)

subsection \<open>The single-prompt item processor\<close>

text \<open>
  Claim C2. Let the collaborator's call for item \<open>i\<close> return the Invocation Result
  \<open>res\<close> with \<open>validated res\<close> false. Then the unit of item \<open>i\<close> raises nothing: its
  outcome is the absent record with the cost \<open>total_cost res\<close>. And \<open>MapOperation_execute\<close>
  is the loop over the futures before \<open>i\<close> followed by the loop over the futures after
  \<open>i\<close>, the latter started from the very records the former collected and from its cost
  plus \<open>total_cost res\<close>: item \<open>i\<close> adds no record and its cost is added.
\<close>

theorem unvalidated_item:
  assumes name: "has_key (config self) ''name''"
    and i: "i < length input_data"
    and call: "map_llm_call self i (input_data ! i) = Inr res"
    and nv: "\<not> validated res"
  shows "process_map_item self i (input_data ! i) = Inr (None, total_cost res)
       \<and> MapOperation_execute self input_data =
           bind (collect_results (config self)
                   (take i (map (\<lambda>p. process_map_item self (fst p) (snd p))
                              (enumerate 0 input_data)))
                   [] 0)
             (\<lambda>s. collect_results (config self)
                   (drop (Suc i) (map (\<lambda>p. process_map_item self (fst p) (snd p))
                                    (enumerate 0 input_data)))
                   (fst s) (snd s + total_cost res))"
proof -
  let ?futs = "map (\<lambda>p. process_map_item self (fst p) (snd p)) (enumerate 0 input_data)"
  have unit: "process_map_item self i (input_data ! i) = Inr (None, total_cost res)"
    using call nv by (simp add: process_map_item_def bind_Inr)
  have len: "i < length ?futs" using i by simp
  have nth: "?futs ! i = Inr (None, total_cost res)"
    using i unit by (simp add: nth_enumerate_eq)
  have split: "?futs = take i ?futs @ Inr (None, total_cost res) # drop (Suc i) ?futs"
    using id_take_nth_drop [OF len] nth by simp
  have step: "collect_results (config self) (Inr (None, total_cost res) # fs) rs c =
      collect_results (config self) fs rs (c + total_cost res)" for fs rs and c :: 'a
    by (simp add: bind_Inr)
  have "collect_results (config self) ?futs [] 0 =
      bind (collect_results (config self) (take i ?futs) [] 0)
        (\<lambda>s. collect_results (config self) (drop (Suc i) ?futs) (fst s) (snd s + total_cost res))"
    by (subst split, subst collect_results_append) (simp only: step)
  moreover have "has_key (config self) ''prompt''"
    using call by (rule map_llm_call_has_prompt)
  moreover obtain nm where "dict_item (config self) ''name'' = Inr nm"
    using name by (auto simp: has_key_def dict_item_def)
  ultimately have "MapOperation_execute self input_data =
      bind (collect_results (config self) (take i ?futs) [] 0)
        (\<lambda>s. collect_results (config self) (drop (Suc i) ?futs) (fst s) (snd s + total_cost res))"
    by (simp add: MapOperation_execute_def bind_Inr Let_def)
  with unit show ?thesis by blast
qed

theorem unvalidated_item_witness:
  "has_key example_config ''name''
   \<and> 0 < length [example_item]
   \<and> map_llm_call (stub_operation example_config (\<lambda>i. rejected_answer)) 0 ([example_item] ! 0)
      = Inr rejected_answer
   \<and> \<not> validated rejected_answer
   \<and> process_map_item (stub_operation example_config (\<lambda>i. rejected_answer)) 0 example_item
      = Inr (None, 1)
   \<and> MapOperation_execute (stub_operation example_config (\<lambda>i. rejected_answer)) [example_item]
      = Inr ([], 1)"
  using unvalidated_item [of "stub_operation example_config (\<lambda>i. rejected_answer)" 0
      "[example_item]" rejected_answer]
  by (simp add: example_defs map_llm_call_def map_prompt_def output_schema_of_def)

text \<open>
  Claim C5. Let the collaborator's call for an item return a validated result and let
  \<open>out\<close> be the first parse of its response, a dictionary. The outcome of the unit is the
  record \<open>dict_update item out\<close> with the result's cost. In that record every key of
  \<open>out\<close> has the value \<open>out\<close> gives it, and every other key has what the item gives it
  (nothing, if the item lacks it); the record is a well-formed dictionary when the item
  is. The projection by \<^verbatim>\<open>drop_keys\<close> comes afterwards, in the loop over the futures.
\<close>

theorem validated_item_merge:
  assumes call: "map_llm_call self i item = Inr res"
    and v: "validated res"
    and sch: "output_schema_of (config self) = Inr sch"
    and parse: "first_parse self (response res)
                  (parse_kwargs self sch (dict_get (config self) ''tools'' VNone)) = Inr out"
    and wf: "wf_dict out"
  shows "process_map_item self i item = Inr (Some (dict_update item out), total_cost res)
       \<and> (\<forall>k. map_of (dict_update item out) k =
                (case map_of out k of Some v \<Rightarrow> Some v | None \<Rightarrow> map_of item k))
       \<and> (wf_dict item \<longrightarrow> wf_dict (dict_update item out))"
proof -
  have "process_map_item self i item = Inr (Some (dict_update item out), total_cost res)"
    using call v sch parse by (simp add: process_map_item_def bind_Inr)
  moreover have "\<forall>k. map_of (dict_update item out) k =
      (case map_of out k of Some v \<Rightarrow> Some v | None \<Rightarrow> map_of item k)"
    using wf by (simp add: map_of_dict_update)
  ultimately show ?thesis by (simp add: wf_dict_update)
qed

theorem validated_item_merge_witness:
  "map_llm_call (stub_operation example_config (\<lambda>i. accepted_answer)) 0 example_item
      = Inr accepted_answer
   \<and> validated accepted_answer
   \<and> output_schema_of example_config = Inr (VDict [(''echo'', VStr ''string'')])
   \<and> wf_dict [(''echo'', VStr ''hello'')]
   \<and> process_map_item (stub_operation example_config (\<lambda>i. accepted_answer)) 0 example_item
      = Inr (Some [(''id'', VInt 1), (''text'', VStr ''hello''), (''echo'', VStr ''hello'')], 1)"
  using validated_item_merge [of "stub_operation example_config (\<lambda>i. accepted_answer)" 0
      example_item accepted_answer "VDict [(''echo'', VStr ''string'')]"
      "[(''echo'', VStr ''hello'')]"]
  by (simp add: example_defs map_llm_call_def map_prompt_def output_schema_of_def first_parse_def
      stub_parse_def wf_dict_def dict_update_def)

text \<open>
  Claim C6. The single-prompt item processor does not go through
  \<open>render_jinja_template\<close>: \<open>map_prompt\<close> compiles the template with the library's
  default settings (auto-escaping off) and renders it even for the empty record. For the
  template \<^verbatim>\<open>Echo the text\<close> and the empty record the collaborator is called with the
  message \<^verbatim>\<open>Echo the text\<close>, where \<open>render_jinja_template\<close> gives the empty string.
\<close>

theorem single_prompt_bypasses_renderer:
  "map_llm_call (echo_operation example_config) 0 [] =
     Inr \<lparr> response = VList [VStr ''gpt-4o-mini'', VStr ''map'', user_message ''Echo the text'',
                               VDict [(''echo'', VStr ''string'')]],
           total_cost = 1, validated = True \<rparr>
   \<and> render_jinja_template (templates (echo_operation example_config)) (VStr ''Echo the text'') []
       = Inr ''''"
  by (simp add: example_defs map_llm_call_def map_prompt_def output_schema_of_def
      render_jinja_template_def)

lemma map_prompt_unescaped:
  "map_prompt self item = Inr prompt \<Longrightarrow>
     \<exists>src. dict_item (config self) ''prompt'' = Inr src
         \<and> jinja_render (templates self) False src [(''input'', VDict item)] = Inr prompt"
  by (auto simp: map_prompt_def bind_eq_Inr)

subsection \<open>Validation of the single-prompt configuration\<close>

text \<open>
  Claim C7. A configuration with a prompt whose \<^verbatim>\<open>output\<close> is a non-empty dictionary
  without the key \<^verbatim>\<open>schema\<close> makes \<open>MapOperation_syntax_check\<close> raise \<^verbatim>\<open>KeyError\<close>:
  the check of the schema subscripts \<^verbatim>\<open>config.output\<close> before it tests the value.
\<close>

theorem missing_schema_key_error:
  "MapOperation_syntax_check
     (stub_operation
        [(''name'', VStr ''op''), (''type'', VStr ''map''), (''prompt'', VStr ''Hello''),
         (''output'', VDict [(''foo'', VStr ''bar'')])] (\<lambda>i. rejected_answer))
   = Inl (KeyError ''schema'')"
  by (simp add: MapOperation_syntax_check_def MapOperation_schema_def schema_defs example_defs
      validate_drop_keys_def check_drop_keys_or_generative_def
      check_required_keys_def check_output_schema_def)

text \<open>
  The field validator of \<^verbatim>\<open>drop_keys\<close> never sees a string. A value that fits
  \<^verbatim>\<open>Optional[List[str]]\<close> is \<^verbatim>\<open>None\<close> or a list, and \<open>validate_drop_keys\<close> hands it
  back; a configuration whose \<^verbatim>\<open>drop_keys\<close> is a string has no schema, whatever its
  other fields are.
\<close>

lemma validate_drop_keys_identity:
  "optional (list_type str_type) v = Inr v' \<Longrightarrow> validate_drop_keys v' = v'"
  by (cases v) (auto simp: optional_def validate_drop_keys_def bind_eq_Inr split: if_splits)

lemma schema_field_invalid:
  assumes "\<And>v. annotation v = Inl validation_error \<or> (\<exists>v'. annotation v = Inr v')"
  shows "schema_field cfg name dflt annotation = Inl validation_error
       \<or> (\<exists>v'. schema_field cfg name dflt annotation = Inr v')"
  using assms by (auto simp: schema_field_def split: option.splits)

lemma bind_invalid:
  assumes "m = Inl e \<or> (\<exists>x. m = Inr x)" and "\<And>x. f x = Inl e"
  shows "bind m f = Inl e"
  using assms by (auto simp: bind_def)

lemma str_type_invalid: "str_type v = Inl validation_error \<or> (\<exists>v'. str_type v = Inr v')"
  by (cases v) simp_all

lemma dict_type_invalid: "dict_type v = Inl validation_error \<or> (\<exists>v'. dict_type v = Inr v')"
  by (cases v) simp_all

lemma mapM_invalid:
  assumes "\<And>v. elem v = Inl e \<or> (\<exists>v'. elem v = Inr v')"
  shows "mapM elem xs = Inl e \<or> (\<exists>ys. mapM elem xs = Inr ys)"
proof (induction xs)
  case Nil
  show ?case by simp
next
  case (Cons x xs)
  with assms [of x] show ?case by (auto simp: bind_def)
qed

lemma list_type_invalid:
  assumes "\<And>v. elem v = Inl validation_error \<or> (\<exists>v'. elem v = Inr v')"
  shows "list_type elem v = Inl validation_error \<or> (\<exists>v'. list_type elem v = Inr v')"
proof (cases v)
  case (VList xs)
  with mapM_invalid [of elem validation_error xs, OF assms] show ?thesis
    by (auto simp: bind_def)
qed simp_all

lemma converted_invalid:
  "converted t v = Inl validation_error \<or> (\<exists>v'. converted t v = Inr v')"
  by (simp add: converted_def split: option.splits)

lemma optional_invalid:
  assumes "\<And>v. t v = Inl validation_error \<or> (\<exists>v'. t v = Inr v')"
  shows "optional t v = Inl validation_error \<or> (\<exists>v'. optional t v = Inr v')"
  using assms by (simp add: optional_def)

lemma string_drop_keys_has_no_schema:
  assumes dk: "map_of (config self) ''drop_keys'' = Some (VStr s)"
  shows "MapOperation_schema self = Inl validation_error"
proof -
  have dk': "schema_field (config self) ''drop_keys'' VNone (optional (list_type str_type))
      = Inl validation_error"
    by (simp add: schema_field_def dk optional_def)
  note field =
    schema_field_invalid [OF str_type_invalid]
    schema_field_invalid [OF optional_invalid, OF str_type_invalid]
    schema_field_invalid [OF optional_invalid, OF dict_type_invalid]
    schema_field_invalid [OF optional_invalid, OF converted_invalid]
    schema_field_invalid [OF optional_invalid, OF list_type_invalid, OF str_type_invalid]
    schema_field_invalid [OF optional_invalid, OF list_type_invalid, OF dict_type_invalid]
  show ?thesis
  proof (cases "base_schema self (config self)")
    case False
    then show ?thesis by (simp add: MapOperation_schema_def)
  next
    case True
    show ?thesis
      unfolding MapOperation_schema_def Let_def
      by (simp only: True not_True_eq_False if_False dk' bind_Inl)
         (intro bind_invalid field refl)
  qed
qed

text \<open>
  Claim C10. The schema does not accept a bare string for \<^verbatim>\<open>drop_keys\<close>: the
  configuration with \<^verbatim>\<open>drop_keys\<close> the string \<^verbatim>\<open>"text"\<close> has no schema object, and
  \<open>MapOperation_syntax_check\<close> ends in the \<^verbatim>\<open>ValidationError\<close> of the construction. The
  same configuration with the list \<^verbatim>\<open>["text"]\<close> has a schema whose \<^verbatim>\<open>drop_keys\<close> is
  that list, and passes the check.
\<close>

theorem bare_string_drop_keys_rejected:
  "MapOperation_schema
       (stub_operation [(''name'', VStr ''op''), (''type'', VStr ''map''),
                        (''drop_keys'', VStr ''text'')] (\<lambda>i. rejected_answer))
     = Inl validation_error
   \<and> MapOperation_syntax_check
       (stub_operation [(''name'', VStr ''op''), (''type'', VStr ''map''),
                        (''drop_keys'', VStr ''text'')] (\<lambda>i. rejected_answer))
     = Inl validation_error
   \<and> map_sum id schema_drop_keys
       (MapOperation_schema
          (stub_operation [(''name'', VStr ''op''), (''type'', VStr ''map''),
                           (''drop_keys'', VList [VStr ''text''])] (\<lambda>i. rejected_answer)))
     = Inr (VList [VStr ''text''])
   \<and> MapOperation_syntax_check
       (stub_operation [(''name'', VStr ''op''), (''type'', VStr ''map''),
                        (''drop_keys'', VList [VStr ''text''])] (\<lambda>i. rejected_answer))
     = Inr ()"
  by (simp add: MapOperation_syntax_check_def MapOperation_schema_def schema_defs example_defs
      validate_drop_keys_def check_drop_keys_or_generative_def)

subsection \<open>Validation of the multi-prompt configuration\<close>

text \<open>The keys collected by the coverage loop are the union of the entries' \<^verbatim>\<open>output_keys\<close>.\<close>

lemma output_keys_covered_set:
  "output_keys_covered pcs = Inr covered \<Longrightarrow>
     set covered =
       (\<Union>pc\<in>set pcs. \<Union>keys\<in>{ks. bind (subscript pc ''output_keys'') py_iter = Inr ks}. set keys)"
proof (induction pcs arbitrary: covered)
  case Nil
  then show ?case by simp
next
  case (Cons pc pcs)
  from Cons.prems obtain oks keys more where
    oks: "subscript pc ''output_keys'' = Inr oks" and keys: "py_iter oks = Inr keys"
    and more: "output_keys_covered pcs = Inr more" and cov: "covered = keys @ more"
    by (auto simp: bind_eq_Inr split: if_splits)
  have "{ks. bind (subscript pc ''output_keys'') py_iter = Inr ks} = {keys}"
    using oks keys by (auto simp: bind_Inr)
  with Cons.IH [OF more] cov show ?case by simp
qed




subsection \<open>The order of the output\<close>

text \<open>
  The loop of \<open>MapOperation_execute\<close> over the futures: the records it adds come from
  futures at strictly increasing positions, each the projection of the record that the
  unit at that position produced.
\<close>

lemma collect_results_indices:
  "collect_results cfg futs rs0 c0 = Inr (rs, c) \<Longrightarrow>
     \<exists>idxs new. rs = rs0 @ new \<and> length new = length idxs \<and> sorted_wrt (<) idxs
       \<and> (\<forall>j\<in>set idxs. j < length futs)
       \<and> (\<forall>k<length idxs. \<exists>r cost. futs ! (idxs ! k) = Inr (Some r, cost)
             \<and> project_result cfg r = Inr (new ! k))"
proof (induction futs arbitrary: rs0 c0)
  case Nil
  then have "rs = rs0" by simp
  then show ?case by (intro exI [of _ "[]"]) simp
next
  case (Cons fut futs)
  from Cons.prems obtain outcome where fut: "fut = Inr outcome"
    by (cases fut) (simp_all add: bind_def)
  let ?P = "\<lambda>fs idxs new. (\<forall>k<length idxs. \<exists>r cost. fs ! (idxs ! k) = Inr (Some r, cost)
             \<and> project_result cfg r = Inr (new ! k))"
  have shift: "sorted_wrt (<) (map Suc idxs)" if "sorted_wrt (<) idxs" for idxs
    using that by (simp add: sorted_wrt_map)
  show ?case
  proof (cases "fst outcome")
    case None
    with Cons.prems fut have "collect_results cfg futs rs0 (c0 + snd outcome) = Inr (rs, c)"
      by (simp add: bind_Inr)
    from Cons.IH [OF this] obtain idxs new where
      a: "rs = rs0 @ new" "length new = length idxs" "sorted_wrt (<) idxs"
        "\<forall>j\<in>set idxs. j < length futs" and b: "?P futs idxs new"
      by blast
    have "?P (fut # futs) (map Suc idxs) new"
      using b by simp
    with a shift show ?thesis
      by (intro exI [of _ "map Suc idxs"] exI [of _ new]) auto
  next
    case (Some r)
    obtain r' where r': "project_result cfg r = Inr r'"
      and rest: "collect_results cfg futs (rs0 @ [r']) (c0 + snd outcome) = Inr (rs, c)"
      using Cons.prems fut Some by (auto simp: bind_Inr bind_eq_Inr)
    from Cons.IH [OF rest] obtain idxs new where
      a: "rs = (rs0 @ [r']) @ new" "length new = length idxs" "sorted_wrt (<) idxs"
        "\<forall>j\<in>set idxs. j < length futs" and b: "?P futs idxs new"
      by blast
    have head: "fut = Inr (Some r, snd outcome)"
      using fut Some by (cases outcome) simp
    have "?P (fut # futs) (0 # map Suc idxs) (r' # new)"
    proof (intro allI impI)
      fix k assume k: "k < length (0 # map Suc idxs)"
      show "\<exists>r cost. (fut # futs) ! ((0 # map Suc idxs) ! k) = Inr (Some r, cost)
             \<and> project_result cfg r = Inr ((r' # new) ! k)"
      proof (cases k)
        case 0
        with head r' show ?thesis by auto
      next
        case (Suc k')
        with k have "k' < length idxs" by simp
        with b Suc show ?thesis by simp
      qed
    qed
    moreover have "sorted_wrt (<) (0 # map Suc idxs)"
      using shift [OF a(3)] by auto
    ultimately show ?thesis using a
      by (intro exI [of _ "0 # map Suc idxs"] exI [of _ "r' # new"]) auto
  qed
qed

lemma mapM_eq_Inr:
  "mapM f xs = Inr ys \<Longrightarrow> length ys = length xs \<and> (\<forall>k<length xs. f (xs ! k) = Inr (ys ! k))"
proof (induction xs arbitrary: ys)
  case Nil
  then show ?case by simp
next
  case (Cons x xs)
  from Cons.prems obtain y ys' where y: "f x = Inr y" and ys': "mapM f xs = Inr ys'"
    and ys: "ys = y # ys'"
    by (auto simp: bind_eq_Inr)
  from Cons.IH [OF ys'] y ys show ?case
    by (auto simp: nth_Cons split: nat.splits)
qed

lemma strict_sorted_length_le:
  assumes s: "sorted_wrt (<) idxs" and b: "\<forall>j\<in>set idxs. j < (n::nat)"
  shows "length idxs \<le> n"
proof -
  from s have "distinct idxs"
    using strict_sorted_iff by blast
  then have "length idxs = card (set idxs)" by (simp add: distinct_card)
  also have "\<dots> \<le> card {..<n}" using b by (intro card_mono) auto
  finally show ?thesis by simp
qed

lemma single_variant_order:
  assumes ex: "MapOperation_execute self input_data = Inr (rs, c)"
  shows "\<exists>idxs. length idxs = length rs \<and> sorted_wrt (<) idxs
       \<and> (\<forall>j\<in>set idxs. j < length input_data)
       \<and> (\<forall>k<length rs.
            if \<not> has_key (config self) ''prompt'' \<and> has_key (config self) ''drop_keys''
            then dict_without (dict_get (config self) ''drop_keys'' VNone)
                   (input_data ! (idxs ! k)) = Inr (rs ! k)
            else \<exists>r cost. process_map_item self (idxs ! k) (input_data ! (idxs ! k))
                             = Inr (Some r, cost)
                   \<and> project_result (config self) r = Inr (rs ! k))"
proof (cases "\<not> has_key (config self) ''prompt'' \<and> has_key (config self) ''drop_keys''")
  case True
  with ex have "mapM (dict_without (dict_get (config self) ''drop_keys'' VNone)) input_data = Inr rs"
    by (auto simp: MapOperation_execute_def bind_eq_Inr)
  from mapM_eq_Inr [OF this] have len: "length rs = length input_data"
    and each: "\<forall>k<length input_data.
      dict_without (dict_get (config self) ''drop_keys'' VNone) (input_data ! k) = Inr (rs ! k)"
    by blast+
  show ?thesis
    unfolding if_P [OF True] using len each
    by (intro exI [of _ "[0..<length input_data]"]) simp
next
  case False
  let ?futs = "map (\<lambda>p. process_map_item self (fst p) (snd p)) (enumerate 0 input_data)"
  from ex False have "collect_results (config self) ?futs [] 0 = Inr (rs, c)"
    by (auto simp: MapOperation_execute_def bind_eq_Inr Let_def)
  from collect_results_indices [OF this] obtain idxs where
    a: "length rs = length idxs" "sorted_wrt (<) idxs" "\<forall>j\<in>set idxs. j < length input_data"
    and b: "\<forall>k<length idxs. \<exists>r cost. ?futs ! (idxs ! k) = Inr (Some r, cost)
             \<and> project_result (config self) r = Inr (rs ! k)"
    by auto
  have "\<exists>r cost. process_map_item self (idxs ! k) (input_data ! (idxs ! k)) = Inr (Some r, cost)
             \<and> project_result (config self) r = Inr (rs ! k)" if k: "k < length rs" for k
  proof -
    from k a have "idxs ! k < length input_data" by simp
    then have eq: "?futs ! (idxs ! k) = process_map_item self (idxs ! k) (input_data ! (idxs ! k))"
      by (simp add: nth_enumerate_eq)
    from k a have "k < length idxs" by simp
    with b obtain r cost where "?futs ! (idxs ! k) = Inr (Some r, cost)"
      and "project_result (config self) r = Inr (rs ! k)"
      by blast
    then show ?thesis unfolding eq by blast
  qed
  then have "\<forall>k<length rs.
            if \<not> has_key (config self) ''prompt'' \<and> has_key (config self) ''drop_keys''
            then dict_without (dict_get (config self) ''drop_keys'' VNone)
                   (input_data ! (idxs ! k)) = Inr (rs ! k)
            else \<exists>r cost. process_map_item self (idxs ! k) (input_data ! (idxs ! k))
                             = Inr (Some r, cost)
                   \<and> project_result (config self) r = Inr (rs ! k)"
    unfolding if_not_P [OF False] by blast
  with a show ?thesis
    by (intro exI [of _ idxs]) (simp only: simp_thms)
qed

text \<open>
  The loop of \<open>ParallelMapOperation_execute\<close> over the futures. One item owns a block of
  \<open>n\<close> consecutive futures, \<open>n\<close> the number of prompts: the first future of the block
  enters the item into the dictionary of results, the other ones update that entry.
\<close>

lemma update_fresh: "k \<notin> fst ` set al \<Longrightarrow> AList.update k v al = al @ [(k, v)]"
  by (induction al) auto

lemma update_last_entry:
  "k \<notin> fst ` set al \<Longrightarrow> AList.update k v (al @ [(k, u)]) = al @ [(k, v)]"
  by (induction al) auto

lemma map_of_last_entry: "k \<notin> fst ` set al \<Longrightarrow> map_of (al @ [(k, u)]) k = Some u"
  by (induction al) auto

lemma reassemble_step_first:
  assumes "0 < n" "i mod n = 0" "i div n = j" "j < length input_data" "j \<notin> fst ` set res0"
  shows "reassemble input_data n i (Inr outcome # futs) res0 acc =
     reassemble input_data n (Suc i) futs
       (res0 @ [(j, dict_update (input_data ! j) (fst outcome))]) (acc + snd outcome)"
  using assms
  by (simp add: bind_Inr update_fresh map_of_last_entry update_last_entry del: map_of_append)

lemma reassemble_step_next:
  assumes "0 < n" "i mod n \<noteq> 0" "i div n = j" "j \<notin> fst ` set res0"
  shows "reassemble input_data n i (Inr outcome # futs) (res0 @ [(j, cur)]) acc =
     reassemble input_data n (Suc i) futs
       (res0 @ [(j, dict_update cur (fst outcome))]) (acc + snd outcome)"
  using assms
  by (simp add: bind_Inr map_of_last_entry update_last_entry del: map_of_append)

lemma reassemble_tail:
  assumes n: "0 < n" and fresh: "j \<notin> fst ` set res0"
  shows "p + length blk = n \<Longrightarrow> 0 < p \<Longrightarrow>
     reassemble input_data n (j * n + p) (map Inr blk @ rest) (res0 @ [(j, cur)]) acc =
     reassemble input_data n (j * n + n) rest
       (res0 @ [(j, fold (\<lambda>out d. dict_update d out) (map fst blk) cur)])
       (foldl (+) acc (map snd blk))"
proof (induction blk arbitrary: p cur acc)
  case Nil
  then show ?case by simp
next
  case (Cons b blk)
  from Cons.prems have p: "p < n" by simp
  with Cons.prems have md: "(j * n + p) mod n \<noteq> 0" "(j * n + p) div n = j"
    by simp_all
  have next_p: "Suc p + length blk = n" "0 < Suc p" using Cons.prems by simp_all
  have "reassemble input_data n (j * n + p) (map Inr (b # blk) @ rest) (res0 @ [(j, cur)]) acc =
      reassemble input_data n (j * n + p) (Inr b # (map Inr blk @ rest)) (res0 @ [(j, cur)]) acc"
    by (simp only: list.map append_Cons)
  also have "\<dots> = reassemble input_data n (Suc (j * n + p)) (map Inr blk @ rest)
        (res0 @ [(j, dict_update cur (fst b))]) (acc + snd b)"
    by (rule reassemble_step_next [OF n md fresh])
  also have "Suc (j * n + p) = j * n + Suc p" by simp
  also have "reassemble input_data n (j * n + Suc p) (map Inr blk @ rest)
        (res0 @ [(j, dict_update cur (fst b))]) (acc + snd b) =
      reassemble input_data n (j * n + n) rest
       (res0 @ [(j, fold (\<lambda>out d. dict_update d out) (map fst blk) (dict_update cur (fst b)))])
       (foldl (+) (acc + snd b) (map snd blk))"
    by (rule Cons.IH [OF next_p])
  finally show ?case by (simp only: list.map fold_simps foldl_Cons)
qed

lemma reassemble_block:
  assumes n: "0 < n" and j: "j < length input_data" and fresh: "j \<notin> fst ` set res0"
    and len: "length blk = n"
  shows "reassemble input_data n (j * n) (map Inr blk @ rest) res0 acc =
     reassemble input_data n (Suc j * n) rest
       (res0 @ [(j, fold (\<lambda>out d. dict_update d out) (map fst blk) (input_data ! j))])
       (foldl (+) acc (map snd blk))"
proof -
  from n len obtain b blk' where blk: "blk = b # blk'" by (cases blk) auto
  have md: "(j * n) mod n = 0" "(j * n) div n = j" using n by simp_all
  have len': "1 + length blk' = n" using len blk by simp
  have "reassemble input_data n (j * n) (map Inr blk @ rest) res0 acc =
      reassemble input_data n (j * n) (Inr b # (map Inr blk' @ rest)) res0 acc"
    by (simp only: blk list.map append_Cons)
  also have "\<dots> = reassemble input_data n (Suc (j * n)) (map Inr blk' @ rest)
        (res0 @ [(j, dict_update (input_data ! j) (fst b))]) (acc + snd b)"
    by (rule reassemble_step_first [OF n md j fresh])
  also have "\<dots> = reassemble input_data n (j * n + 1) (map Inr blk' @ rest)
        (res0 @ [(j, dict_update (input_data ! j) (fst b))]) (acc + snd b)"
    by (simp only: Suc_eq_plus1)
  also have "\<dots> = reassemble input_data n (j * n + n) rest
       (res0 @ [(j, fold (\<lambda>out d. dict_update d out) (map fst blk')
                      (dict_update (input_data ! j) (fst b)))])
       (foldl (+) (acc + snd b) (map snd blk'))"
    by (rule reassemble_tail [OF n fresh len']) simp
  also have "j * n + n = Suc j * n" by simp
  finally show ?thesis by (simp only: blk list.map fold_simps foldl_Cons)
qed

lemma reassemble_blocks:
  assumes n: "0 < n"
  shows "\<forall>b\<in>set blocks. length b = n \<Longrightarrow> j0 + length blocks \<le> length input_data \<Longrightarrow>
     \<forall>j\<ge>j0. j \<notin> fst ` set res0 \<Longrightarrow>
     reassemble input_data n (j0 * n) (concat (map (map Inr) blocks)) res0 acc =
       Inr (res0 @ map (\<lambda>k. (j0 + k, fold (\<lambda>out d. dict_update d out) (map fst (blocks ! k))
                                        (input_data ! (j0 + k)))) [0..<length blocks],
            foldl (+) acc (concat (map (map snd) blocks)))"
proof (induction blocks arbitrary: j0 res0 acc)
  case Nil
  then show ?case by simp
next
  case (Cons b blocks)
  let ?R = "fold (\<lambda>out d. dict_update d out) (map fst b) (input_data ! j0)"
  have b: "length b = n" and j0: "j0 < length input_data" and fresh: "j0 \<notin> fst ` set res0"
    using Cons.prems by auto
  have step: "reassemble input_data n (j0 * n) (concat (map (map Inr) (b # blocks))) res0 acc =
      reassemble input_data n (Suc j0 * n) (concat (map (map Inr) blocks))
        (res0 @ [(j0, ?R)]) (foldl (+) acc (map snd b))"
    using reassemble_block [OF n j0 fresh b] by simp
  have "\<forall>b\<in>set blocks. length b = n" "Suc j0 + length blocks \<le> length input_data"
    "\<forall>j\<ge>Suc j0. j \<notin> fst ` set (res0 @ [(j0, ?R)])"
    using Cons.prems by auto
  from Cons.IH [OF this] step show ?case
    by (simp add: map_upt_Suc del: upt_Suc)
qed

lemma reassemble_all_Inr:
  "reassemble input_data n i futs res acc = Inr x \<Longrightarrow> \<forall>f\<in>set futs. \<exists>out. f = Inr out"
proof (induction futs arbitrary: i res acc)
  case Nil
  show ?case by simp
next
  case (Cons f futs)
  from Cons.prems obtain outcome where f: "f = Inr outcome"
    by (cases f) (simp_all add: bind_def)
  from Cons.prems f obtain i' res' acc' where
    "reassemble input_data n i' futs res' acc' = Inr x"
    by (auto simp: bind_eq_Inr split: if_splits option.splits)
  from Cons.IH [OF this] f show ?case by simp
qed

lemma take_drop_nth:
  "k + n \<le> length xs \<Longrightarrow> take n (drop k xs) = map (\<lambda>p. xs ! (k + p)) [0..<n]"
  by (rule nth_equalityI) simp_all

lemma concat_blocks_take:
  "m * n \<le> length xs \<Longrightarrow>
     concat (map (\<lambda>j. map (\<lambda>p. xs ! (j * n + p)) [0..<n]) [0..<m]) = take (m * n) xs"
proof (induction m)
  case 0
  show ?case by simp
next
  case (Suc m)
  then have le: "m * n + n \<le> length xs" by (simp add: add.commute)
  then have le': "m * n \<le> length xs" by simp
  have "concat (map (\<lambda>j. map (\<lambda>p. xs ! (j * n + p)) [0..<n]) [0..<Suc m]) =
      concat (map (\<lambda>j. map (\<lambda>p. xs ! (j * n + p)) [0..<n]) [0..<m])
        @ map (\<lambda>p. xs ! (m * n + p)) [0..<n]"
    by simp
  also have "\<dots> = take (m * n) xs @ take n (drop (m * n) xs)"
    by (simp only: Suc.IH [OF le'] take_drop_nth [OF le])
  also have "\<dots> = take (m * n + n) xs"
    by (simp only: take_add)
  also have "m * n + n = Suc m * n" by simp
  finally show ?case .
qed

lemma concat_blocks:
  "length xs = m * n \<Longrightarrow>
     concat (map (\<lambda>j. map (\<lambda>p. xs ! (j * n + p)) [0..<n]) [0..<m]) = xs"
  using concat_blocks_take [of m n xs] by simp

lemma map_filter_keys:
  assumes keys: "map fst res = [0..<m]"
  shows "List.map_filter (map_of res) [0..<m] = map snd res"
proof -
  have len: "length res = m" using keys by (metis length_map length_upt minus_nat.diff_0)
  have dist: "distinct (map fst res)" using keys by simp
  have look: "map_of res j = Some (snd (res ! j))" if "j < m" for j
  proof -
    from that len have "res ! j \<in> set res" by simp
    moreover have "fst (res ! j) = j"
      using that len keys by (metis nth_map nth_upt add_0)
    ultimately have "(j, snd (res ! j)) \<in> set res" by (metis prod.collapse)
    with dist show ?thesis by simp
  qed
  have "List.map_filter (map_of res) [0..<m] = map (\<lambda>j. snd (res ! j)) [0..<m]"
    unfolding map_filter_def using look by (auto intro!: map_cong filter_True [THEN trans])
  also have "\<dots> = map snd res"
    using len by (intro nth_equalityI) simp_all
  finally show ?thesis .
qed

text \<open>The futures of the multi-prompt operator, read block by block.\<close>

lemma block_index: "p < n \<Longrightarrow> (j * n + p) div n = (j::nat)"
  by (simp add: add.commute [of "j * n" p])

lemma all_futures_length:
  "length (all_futures self sch input_data pcs) = length input_data * length pcs"
  by (simp add: all_futures_def)

lemma all_futures_nth:
  assumes j: "j < length input_data" and p: "p < length pcs"
  shows "all_futures self sch input_data pcs ! (j * length pcs + p) =
     process_prompt self sch (j * length pcs + p) (input_data ! j) (pcs ! p)"
proof -
  let ?n = "length pcs"
  have "j * ?n + p < Suc j * ?n" using p by simp
  also have "\<dots> \<le> length input_data * ?n" using j by (intro mult_le_mono1) simp
  finally have i: "j * ?n + p < length input_data * ?n" .
  have md: "(j * ?n + p) div ?n = j" "(j * ?n + p) mod ?n = p"
    using p by (simp_all add: block_index)
  have "List.product input_data pcs ! (j * ?n + p) = (input_data ! j, pcs ! p)"
    using i by (simp only: product_nth md)
  with i show ?thesis
    by (simp add: all_futures_def nth_enumerate_eq)
qed

lemma each_block_entry:
  assumes "p < n" "j < m"
  shows "map (\<lambda>j. map (\<lambda>p. f (j * n + p)) [0..<n]) [0..<m] ! j ! p = f (j * n + p)"
  using assms by simp

lemma reassemble_all_futures:
  assumes n: "0 < length pcs"
    and run: "reassemble input_data (length pcs) 0 (all_futures self sch input_data pcs) [] acc
                = Inr (results, c)"
  shows "\<exists>outs. length outs = length input_data
       \<and> (\<forall>j<length input_data. length (outs ! j) = length pcs
             \<and> (\<forall>p<length pcs. \<exists>cost.
                   process_prompt self sch (j * length pcs + p) (input_data ! j) (pcs ! p)
                     = Inr (outs ! j ! p, cost)))
       \<and> results = map (\<lambda>j. (j, fold (\<lambda>out d. dict_update d out) (outs ! j) (input_data ! j)))
                      [0..<length input_data]"
proof -
  let ?n = "length pcs" and ?m = "length input_data"
  let ?futs = "all_futures self sch input_data pcs"
  define flat where "flat = map projr ?futs"
  have all: "\<forall>f\<in>set ?futs. \<exists>out. f = Inr out"
    using reassemble_all_Inr [OF run] .
  have "map (\<lambda>f. Inr (projr f)) ?futs = map (\<lambda>f. f) ?futs"
    by (rule map_cong) (use all in auto)
  then have futs: "?futs = map Inr flat"
    by (simp add: flat_def comp_def)
  have len: "length flat = ?m * ?n"
    by (simp add: flat_def all_futures_length)
  define blocks where "blocks = map (\<lambda>j. map (\<lambda>p. flat ! (j * ?n + p)) [0..<?n]) [0..<?m]"
  have cat: "concat blocks = flat"
    unfolding blocks_def by (rule concat_blocks [OF len])
  have futs': "?futs = concat (map (map Inr) blocks)"
    by (simp only: futs cat [symmetric] map_concat)
  have blen: "\<forall>b\<in>set blocks. length b = ?n" "0 + length blocks \<le> ?m"
    by (auto simp: blocks_def)
  have fresh: "\<forall>j\<ge>0. j \<notin> fst ` set ([] :: (nat \<times> pydict) list)" by simp
  have lenb: "length blocks = ?m" by (simp add: blocks_def)
  have "reassemble input_data ?n (0 * ?n) (concat (map (map Inr) blocks)) [] acc =
      Inr ([] @ map (\<lambda>k. (0 + k, fold (\<lambda>out d. dict_update d out) (map fst (blocks ! k))
                                        (input_data ! (0 + k)))) [0..<length blocks],
            foldl (+) acc (concat (map (map snd) blocks)))"
    by (rule reassemble_blocks [OF n blen fresh])
  then have "reassemble input_data ?n 0 ?futs [] acc =
      Inr (map (\<lambda>k. (k, fold (\<lambda>out d. dict_update d out) (map fst (blocks ! k))
                                        (input_data ! k))) [0..<?m],
            foldl (+) acc (concat (map (map snd) blocks)))"
    by (simp only: futs' [symmetric] lenb mult_0 append_Nil plus_nat.add_0)
  with run have res: "results = map (\<lambda>k. (k, fold (\<lambda>out d. dict_update d out)
        (map fst (blocks ! k)) (input_data ! k))) [0..<?m]"
    by simp
  define outs where "outs = map (map fst) blocks"
  have o1: "length outs = ?m" by (simp add: outs_def blocks_def)
  have o2: "length (outs ! j) = ?n" if "j < ?m" for j
    using that by (simp add: outs_def blocks_def)
  have o3: "\<exists>cost. process_prompt self sch (j * ?n + p) (input_data ! j) (pcs ! p)
                     = Inr (outs ! j ! p, cost)" if j: "j < ?m" and p: "p < ?n" for j p
  proof -
    have "j * ?n + p < Suc j * ?n" using p by simp
    also have "\<dots> \<le> ?m * ?n" using j by (intro mult_le_mono1) simp
    finally have i: "j * ?n + p < ?m * ?n" .
    have "?futs ! (j * ?n + p) = Inr (flat ! (j * ?n + p))"
      using i len by (simp add: futs)
    moreover have "outs ! j ! p = fst (flat ! (j * ?n + p))"
      using j p by (simp add: outs_def blocks_def)
    ultimately have "process_prompt self sch (j * ?n + p) (input_data ! j) (pcs ! p) =
        Inr (outs ! j ! p, snd (flat ! (j * ?n + p)))"
      using all_futures_nth [OF j p, of self sch] by simp
    then show ?thesis by blast
  qed
  have "results = map (\<lambda>j. (j, fold (\<lambda>out d. dict_update d out) (outs ! j) (input_data ! j)))
                      [0..<?m]"
    unfolding res by (rule map_cong) (simp_all add: outs_def blocks_def)
  with o1 o2 o3 show ?thesis by blast
qed

lemma apply_drop_keys_entries:
  assumes "apply_drop_keys cfg R = Inr R'"
  shows "length R' = length R
       \<and> (\<forall>k<length R. apply_drop_keys cfg [R ! k] = Inr [R' ! k] \<and> fst (R' ! k) = fst (R ! k))"
proof (cases "has_key cfg ''drop_keys'' \<and> R \<noteq> []")
  case False
  with assms have "R' = R"
    by (auto simp: apply_drop_keys_def split: if_splits)
  with False show ?thesis
    by (auto simp: apply_drop_keys_def)
next
  case True
  let ?g = "\<lambda>keys entry. bind (pop_keys keys (snd entry)) (\<lambda>item. Inr (fst entry, item))"
  from assms True obtain keys where keys: "py_iter (dict_get cfg ''drop_keys'' VNone) = Inr keys"
    and run: "mapM (?g keys) R = Inr R'"
    by (auto simp: apply_drop_keys_def bind_eq_Inr)
  from mapM_eq_Inr [OF run] have len: "length R' = length R"
    and each: "\<forall>k<length R. ?g keys (R ! k) = Inr (R' ! k)"
    by blast+
  have "apply_drop_keys cfg [R ! k] = Inr [R' ! k] \<and> fst (R' ! k) = fst (R ! k)"
    if k: "k < length R" for k
  proof -
    from each k have g: "?g keys (R ! k) = Inr (R' ! k)" by blast
    then obtain item where "pop_keys keys (snd (R ! k)) = Inr item"
      and "R' ! k = (fst (R ! k), item)"
      by (auto simp: bind_eq_Inr)
    then have "fst (R' ! k) = fst (R ! k)" by simp
    moreover have "apply_drop_keys cfg [R ! k] = Inr [R' ! k]"
      using True keys g by (simp add: apply_drop_keys_def bind_Inr)
    ultimately show ?thesis by blast
  qed
  with len show ?thesis by blast
qed

text \<open>The final comprehension over the item indices, and the operator as a whole.\<close>

lemma ordered_results_keys:
  "map fst res = [0..<length input_data] \<Longrightarrow> ordered_results input_data res = map snd res"
  by (simp add: ordered_results_def map_filter_keys)

lemma ordered_results_empty: "ordered_results input_data [] = []"
  by (simp add: ordered_results_def map_filter_def)

lemma multi_variant_order:
  assumes ex: "ParallelMapOperation_execute self input_data = Inr (rs, c)"
  shows "\<exists>idxs. length idxs = length rs \<and> sorted_wrt (<) idxs
       \<and> (\<forall>j\<in>set idxs. j < length input_data)
       \<and> (\<forall>k<length rs.
            if has_key (config self) ''prompts'' then
              \<exists>sch pcs outs.
                py_get (dict_get (config self) ''output'' (VDict [])) ''schema'' (VDict []) = Inr sch
                \<and> py_iter (dict_get (config self) ''prompts'' VNone) = Inr pcs
                \<and> length outs = length pcs
                \<and> (\<forall>p<length pcs. \<exists>cost.
                      process_prompt self sch (idxs ! k * length pcs + p)
                        (input_data ! (idxs ! k)) (pcs ! p) = Inr (outs ! p, cost))
                \<and> apply_drop_keys (config self)
                      [(idxs ! k, fold (\<lambda>out d. dict_update d out) outs (input_data ! (idxs ! k)))]
                    = Inr [(idxs ! k, rs ! k)]
            else if has_key (config self) ''drop_keys'' then
              dict_without (dict_get (config self) ''drop_keys'' VNone)
                (input_data ! (idxs ! k)) = Inr (rs ! k)
            else rs ! k = input_data ! (idxs ! k))"
proof -
  let ?cfg = "config self" and ?m = "length input_data"
  from ex obtain sch where
    sch: "py_get (dict_get ?cfg ''output'' (VDict [])) ''schema'' (VDict []) = Inr sch"
    by (auto simp: ParallelMapOperation_execute_def bind_eq_Inr)
  show ?thesis
  proof (cases "has_key ?cfg ''prompts''")
    case np: False
    show ?thesis
    proof (cases "has_key ?cfg ''drop_keys''")
      case True
      with ex np sch
      have "mapM (dict_without (dict_get ?cfg ''drop_keys'' VNone)) input_data = Inr rs"
        by (auto simp: ParallelMapOperation_execute_def bind_eq_Inr)
      from mapM_eq_Inr [OF this] have len: "length rs = ?m"
        and each: "\<forall>k<?m. dict_without (dict_get ?cfg ''drop_keys'' VNone) (input_data ! k)
                      = Inr (rs ! k)"
        by blast+
      show ?thesis
        unfolding if_not_P [OF np] if_P [OF True] using len each
        by (intro exI [of _ "[0..<?m]"]) simp
    next
      case False
      with ex np sch have "rs = ordered_results input_data (enumerate 0 input_data)"
        by (auto simp: ParallelMapOperation_execute_def bind_eq_Inr apply_drop_keys_def)
      then have rs: "rs = input_data"
        by (simp add: ordered_results_keys)
      show ?thesis
        unfolding if_not_P [OF np] if_not_P [OF False] using rs
        by (intro exI [of _ "[0..<?m]"]) simp
    qed
  next
    case pr: True
    from ex pr sch obtain folded results where
      folded: "(if input_data = [] then Inr ([], 0)
                else bind (py_iter (dict_get ?cfg ''prompts'' VNone)) (\<lambda>pcs.
                       reassemble input_data (length pcs) 0
                         (all_futures self sch input_data pcs) [] 0)) = Inr folded"
      and dropped: "apply_drop_keys ?cfg (fst folded) = Inr results"
      and rs: "rs = ordered_results input_data results"
      by (auto simp: ParallelMapOperation_execute_def bind_eq_Inr)
    have empty: ?thesis if "fst folded = []"
    proof -
      from that dropped have "results = []"
        by (auto simp: apply_drop_keys_def split: if_splits)
      with rs have "rs = []" by (simp add: ordered_results_empty)
      then show ?thesis by (intro exI [of _ "[]"]) simp
    qed
    show ?thesis
    proof (cases "input_data = []")
      case True
      with folded have "fst folded = []" by auto
      then show ?thesis by (rule empty)
    next
      case ne: False
      with folded obtain pcs where
        pcs: "py_iter (dict_get ?cfg ''prompts'' VNone) = Inr pcs"
        and run: "reassemble input_data (length pcs) 0
                    (all_futures self sch input_data pcs) [] 0 = Inr folded"
        by (auto simp: bind_eq_Inr)
      show ?thesis
      proof (cases "length pcs = 0")
        case True
        then have "all_futures self sch input_data pcs = []"
          using all_futures_length [of self sch input_data pcs] by simp
        with run have "fst folded = []"
          by auto
        then show ?thesis by (rule empty)
      next
        case False
        then have n: "0 < length pcs" by simp
        let ?n = "length pcs"
        from run have run': "reassemble input_data ?n 0 (all_futures self sch input_data pcs) [] 0
            = Inr (fst folded, snd folded)"
          by simp
        from reassemble_all_futures [OF n run'] obtain outs where
          o1: "length outs = ?m"
          and o2: "\<forall>j<?m. length (outs ! j) = ?n
             \<and> (\<forall>p<?n. \<exists>cost.
                   process_prompt self sch (j * ?n + p) (input_data ! j) (pcs ! p)
                     = Inr (outs ! j ! p, cost))"
          and R: "fst folded = map (\<lambda>j. (j, fold (\<lambda>out d. dict_update d out) (outs ! j)
                                             (input_data ! j))) [0..<?m]"
          by blast
        let ?R = "fst folded"
        have lenR: "length ?R = ?m" by (simp add: R)
        have nthR: "?R ! k = (k, fold (\<lambda>out d. dict_update d out) (outs ! k) (input_data ! k))"
          if "k < ?m" for k
          using that by (simp add: R)
        from apply_drop_keys_entries [OF dropped] lenR
        have len': "length results = ?m"
          and each: "\<forall>k<?m. apply_drop_keys ?cfg [?R ! k] = Inr [results ! k]
                        \<and> fst (results ! k) = fst (?R ! k)"
          by simp_all
        have keys: "map fst results = [0..<?m]"
          using len' each nthR by (intro nth_equalityI) simp_all
        from rs keys have rs': "rs = map snd results"
          by (simp add: ordered_results_keys)
        have lenrs: "length rs = ?m" by (simp add: rs' len')
        have one: "apply_drop_keys ?cfg
                      [(k, fold (\<lambda>out d. dict_update d out) (outs ! k) (input_data ! k))]
                    = Inr [(k, rs ! k)]" if k: "k < ?m" for k
        proof -
          from each k have a: "apply_drop_keys ?cfg [?R ! k] = Inr [results ! k]"
            and b: "fst (results ! k) = fst (?R ! k)"
            by blast+
          from b k have "fst (results ! k) = k" by (simp add: nthR)
          moreover have "snd (results ! k) = rs ! k"
            using k len' by (simp add: rs')
          ultimately have "results ! k = (k, rs ! k)"
            by (metis prod.collapse)
          with a k show ?thesis by (simp add: nthR)
        qed
        have "\<forall>k<length rs.
              \<exists>sch pcs outs.
                py_get (dict_get ?cfg ''output'' (VDict [])) ''schema'' (VDict []) = Inr sch
                \<and> py_iter (dict_get ?cfg ''prompts'' VNone) = Inr pcs
                \<and> length outs = length pcs
                \<and> (\<forall>p<length pcs. \<exists>cost.
                      process_prompt self sch ([0..<?m] ! k * length pcs + p)
                        (input_data ! ([0..<?m] ! k)) (pcs ! p) = Inr (outs ! p, cost))
                \<and> apply_drop_keys ?cfg
                      [([0..<?m] ! k, fold (\<lambda>out d. dict_update d out) outs
                                        (input_data ! ([0..<?m] ! k)))]
                    = Inr [([0..<?m] ! k, rs ! k)]"
        proof (intro allI impI)
          fix k assume "k < length rs"
          then have k: "k < ?m" by (simp add: lenrs)
          then have idx: "[0..<?m] ! k = k" by simp
          from o2 k have l: "length (outs ! k) = ?n"
            and u: "\<forall>p<?n. \<exists>cost.
                   process_prompt self sch (k * ?n + p) (input_data ! k) (pcs ! p)
                     = Inr (outs ! k ! p, cost)"
            by blast+
          show "\<exists>sch pcs outs.
                py_get (dict_get ?cfg ''output'' (VDict [])) ''schema'' (VDict []) = Inr sch
                \<and> py_iter (dict_get ?cfg ''prompts'' VNone) = Inr pcs
                \<and> length outs = length pcs
                \<and> (\<forall>p<length pcs. \<exists>cost.
                      process_prompt self sch ([0..<?m] ! k * length pcs + p)
                        (input_data ! ([0..<?m] ! k)) (pcs ! p) = Inr (outs ! p, cost))
                \<and> apply_drop_keys ?cfg
                      [([0..<?m] ! k, fold (\<lambda>out d. dict_update d out) outs
                                        (input_data ! ([0..<?m] ! k)))]
                    = Inr [([0..<?m] ! k, rs ! k)]"
            unfolding idx using sch pcs l u one [OF k] by blast
        qed
        then show ?thesis
          unfolding if_P [OF pr] using lenrs
          by (intro exI [of _ "[0..<?m]"]) simp
      qed
    qed
  qed
qed

text \<open>The two operators on the example records.\<close>

lemma halves:
  "Suc (Suc n) div Suc (Suc 0) = Suc (n div Suc (Suc 0))"
  "Suc (Suc n) mod Suc (Suc 0) = n mod Suc (Suc 0)"
  by (simp_all add: numeral_2_eq_2 [symmetric])

lemma single_run:
  "MapOperation_execute (stub_operation example_config second_rejected) example_items
      = Inr ([[(''id'', VInt 1), (''text'', VStr ''hello''), (''echo'', VStr ''hello'')],
              [(''id'', VInt 3), (''echo'', VStr ''hello'')]], 3)"
  by (simp add: MapOperation_execute_def example_defs example_items_def second_rejected_def
      process_map_item_def map_llm_call_def map_prompt_def output_schema_of_def first_parse_def
      stub_parse_def dict_update_def)

lemma multi_run:
  "ParallelMapOperation_execute (stub_operation two_prompt_config indexed_answer) example_items
      = Inr ([[(''id'', VInt 1), (''text'', VStr ''hello''), (''a'', VInt 0), (''b'', VInt 1)],
              [(''id'', VInt 2), (''a'', VInt 2), (''b'', VInt 3)],
              [(''id'', VInt 3), (''a'', VInt 4), (''b'', VInt 5)]], 6)"
  by (simp add: ParallelMapOperation_execute_def two_prompt_config_def example_defs
      example_items_def indexed_answer_def all_futures_def process_prompt_def
      render_jinja_template_def enumerate_eq_zip first_parse_def stub_parse_def dict_update_def
      apply_drop_keys_def ordered_results_def map_filter_def parse_kwargs_def
      parallel_call_kwargs_def halves)

text \<open>
  Claim C4. Whenever \<open>MapOperation_execute\<close> or \<open>ParallelMapOperation_execute\<close> returns
  the records \<open>rs\<close> for the input \<open>input_data\<close>, there are no more records than input
  items, and there is a strictly increasing sequence \<open>idxs\<close> of item indices, one for each
  record, such that the record at position \<open>k\<close> is made from the item \<open>idxs ! k\<close> alone:

    \<^item> on a path without a model, it is that item without the fields of \<^verbatim>\<open>drop_keys\<close>
      (or the item itself, in the multi-prompt operator without \<^verbatim>\<open>drop_keys\<close>);
    \<^item> in the single-prompt operator, it is the projection of the record that the unit of
      that item produced;
    \<^item> in the multi-prompt operator, it is the item updated with the outputs of its units,
      in the order of the prompts, with the fields of \<^verbatim>\<open>drop_keys\<close> removed.

  A strictly increasing sequence has no index twice, so no item occurs twice and the
  records keep the relative order of their items. The outcome of a unit is a function of
  its index and its arguments (\<open>call_llm\<close> takes the index of the unit), the statement
  holds for every such function, and both loops read the futures in the order of
  submission: the order in which concurrent units complete is not an input of the result.
\<close>

theorem output_follows_input_order:
  "(MapOperation_execute self input_data = Inr (rs, c) \<longrightarrow>
      length rs \<le> length input_data
      \<and> (\<exists>idxs. length idxs = length rs \<and> sorted_wrt (<) idxs
           \<and> (\<forall>j\<in>set idxs. j < length input_data)
           \<and> (\<forall>k<length rs.
                if \<not> has_key (config self) ''prompt'' \<and> has_key (config self) ''drop_keys''
                then dict_without (dict_get (config self) ''drop_keys'' VNone)
                       (input_data ! (idxs ! k)) = Inr (rs ! k)
                else \<exists>r cost. process_map_item self (idxs ! k) (input_data ! (idxs ! k))
                                 = Inr (Some r, cost)
                       \<and> project_result (config self) r = Inr (rs ! k))))
   \<and> (ParallelMapOperation_execute self input_data = Inr (rs, c) \<longrightarrow>
      length rs \<le> length input_data
      \<and> (\<exists>idxs. length idxs = length rs \<and> sorted_wrt (<) idxs
           \<and> (\<forall>j\<in>set idxs. j < length input_data)
           \<and> (\<forall>k<length rs.
                if has_key (config self) ''prompts'' then
                  \<exists>sch pcs outs.
                    py_get (dict_get (config self) ''output'' (VDict [])) ''schema'' (VDict [])
                      = Inr sch
                    \<and> py_iter (dict_get (config self) ''prompts'' VNone) = Inr pcs
                    \<and> length outs = length pcs
                    \<and> (\<forall>p<length pcs. \<exists>cost.
                          process_prompt self sch (idxs ! k * length pcs + p)
                            (input_data ! (idxs ! k)) (pcs ! p) = Inr (outs ! p, cost))
                    \<and> apply_drop_keys (config self)
                          [(idxs ! k, fold (\<lambda>out d. dict_update d out) outs
                                        (input_data ! (idxs ! k)))]
                        = Inr [(idxs ! k, rs ! k)]
                else if has_key (config self) ''drop_keys'' then
                  dict_without (dict_get (config self) ''drop_keys'' VNone)
                    (input_data ! (idxs ! k)) = Inr (rs ! k)
                else rs ! k = input_data ! (idxs ! k))))"
proof (intro conjI impI)
  assume ex: "MapOperation_execute self input_data = Inr (rs, c)"
  from single_variant_order [OF ex] obtain idxs where
    a: "length idxs = length rs" "sorted_wrt (<) idxs" "\<forall>j\<in>set idxs. j < length input_data"
    by blast
  from strict_sorted_length_le [OF a(2) a(3)] a(1)
  show "length rs \<le> length input_data" by simp
next
  assume ex: "MapOperation_execute self input_data = Inr (rs, c)"
  then show "\<exists>idxs. length idxs = length rs \<and> sorted_wrt (<) idxs
           \<and> (\<forall>j\<in>set idxs. j < length input_data)
           \<and> (\<forall>k<length rs.
                if \<not> has_key (config self) ''prompt'' \<and> has_key (config self) ''drop_keys''
                then dict_without (dict_get (config self) ''drop_keys'' VNone)
                       (input_data ! (idxs ! k)) = Inr (rs ! k)
                else \<exists>r cost. process_map_item self (idxs ! k) (input_data ! (idxs ! k))
                                 = Inr (Some r, cost)
                       \<and> project_result (config self) r = Inr (rs ! k))"
    by (rule single_variant_order)
next
  assume ex: "ParallelMapOperation_execute self input_data = Inr (rs, c)"
  from multi_variant_order [OF ex] obtain idxs where
    a: "length idxs = length rs" "sorted_wrt (<) idxs" "\<forall>j\<in>set idxs. j < length input_data"
    by blast
  from strict_sorted_length_le [OF a(2) a(3)] a(1)
  show "length rs \<le> length input_data" by simp
next
  assume ex: "ParallelMapOperation_execute self input_data = Inr (rs, c)"
  then show "\<exists>idxs. length idxs = length rs \<and> sorted_wrt (<) idxs
           \<and> (\<forall>j\<in>set idxs. j < length input_data)
           \<and> (\<forall>k<length rs.
                if has_key (config self) ''prompts'' then
                  \<exists>sch pcs outs.
                    py_get (dict_get (config self) ''output'' (VDict [])) ''schema'' (VDict [])
                      = Inr sch
                    \<and> py_iter (dict_get (config self) ''prompts'' VNone) = Inr pcs
                    \<and> length outs = length pcs
                    \<and> (\<forall>p<length pcs. \<exists>cost.
                          process_prompt self sch (idxs ! k * length pcs + p)
                            (input_data ! (idxs ! k)) (pcs ! p) = Inr (outs ! p, cost))
                    \<and> apply_drop_keys (config self)
                          [(idxs ! k, fold (\<lambda>out d. dict_update d out) outs
                                        (input_data ! (idxs ! k)))]
                        = Inr [(idxs ! k, rs ! k)]
                else if has_key (config self) ''drop_keys'' then
                  dict_without (dict_get (config self) ''drop_keys'' VNone)
                    (input_data ! (idxs ! k)) = Inr (rs ! k)
                else rs ! k = input_data ! (idxs ! k))"
    by (rule multi_variant_order)
qed

text \<open>
  On the example records the single-prompt operator, whose second unit is rejected,
  returns the records of the items 0 and 2; the multi-prompt operator returns one record
  for each item, with the outputs of the units \<open>2 * j\<close> and \<open>2 * j + 1\<close> in the record
  of item \<open>j\<close>.
\<close>

theorem output_follows_input_order_witness:
  "MapOperation_execute (stub_operation example_config second_rejected) example_items
      = Inr ([[(''id'', VInt 1), (''text'', VStr ''hello''), (''echo'', VStr ''hello'')],
              [(''id'', VInt 3), (''echo'', VStr ''hello'')]], 3)
   \<and> length [[(''id'', VInt 1), (''text'', VStr ''hello''), (''echo'', VStr ''hello'')],
              [(''id'', VInt 3), (''echo'', VStr ''hello'')]] \<le> length example_items
   \<and> process_map_item (stub_operation example_config second_rejected) 1 (example_items ! 1)
      = Inr (None, 1)
   \<and> ParallelMapOperation_execute (stub_operation two_prompt_config indexed_answer)
        example_items
      = Inr ([[(''id'', VInt 1), (''text'', VStr ''hello''), (''a'', VInt 0), (''b'', VInt 1)],
              [(''id'', VInt 2), (''a'', VInt 2), (''b'', VInt 3)],
              [(''id'', VInt 3), (''a'', VInt 4), (''b'', VInt 5)]], 6)
   \<and> length [[(''id'', VInt 1), (''text'', VStr ''hello''), (''a'', VInt 0), (''b'', VInt 1)],
              [(''id'', VInt 2), (''a'', VInt 2), (''b'', VInt 3)],
              [(''id'', VInt 3), (''a'', VInt 4), (''b'', VInt 5)]] \<le> length example_items"
proof -
  have rejected: "process_map_item (stub_operation example_config second_rejected) 1
      (example_items ! 1) = Inr (None, 1)"
    by (simp add: example_defs example_items_def second_rejected_def process_map_item_def
        map_llm_call_def map_prompt_def output_schema_of_def)
  from output_follows_input_order [THEN conjunct1, THEN mp, OF single_run]
  have "length [[(''id'', VInt 1), (''text'', VStr ''hello''), (''echo'', VStr ''hello'')],
              [(''id'', VInt 3), (''echo'', VStr ''hello'')]] \<le> length example_items"
    by (rule conjunct1)
  moreover from output_follows_input_order [THEN conjunct2, THEN mp, OF multi_run]
  have "length [[(''id'', VInt 1), (''text'', VStr ''hello''), (''a'', VInt 0), (''b'', VInt 1)],
              [(''id'', VInt 2), (''a'', VInt 2), (''b'', VInt 3)],
              [(''id'', VInt 3), (''a'', VInt 4), (''b'', VInt 5)]] \<le> length example_items"
    by (rule conjunct1)
  ultimately show ?thesis
    using single_run multi_run rejected by simp
qed

subsection \<open>The records of the caller\<close>
























end
